theory Spec2Isabelle
  imports Main "HOL-Library.AList"
begin

section \<open>Data model\<close>

text \<open>
  The documents the program decodes from the remote catalogue, with the fields the
  program reads. A key the program reads with a subscript and that may be missing is an
  \<open>option\<close> (\<open>None\<close> raises KeyError at the subscript); a key read with
  \<open>.get(key, default)\<close> is an \<open>option\<close> whose \<open>None\<close> takes the default.
\<close>

record pokemon =
  pid :: int
  pname :: string
  ptypes :: "string list"
  height :: int
  weight :: int
  front_default :: "string option"
  front_shiny :: "string option"

record species =
  sp_is_legendary :: "bool option"
  sp_is_mythical :: "bool option"
  sp_evolution_chain_url :: "string option"
  sp_names :: "(string \<times> string) list"

datatype chain_link =
  ChainLink (link_species_url: "string option") (evolves_to: "chain_link list")

record evolution_doc =
  chain :: "chain_link option"

text \<open>The exceptions of the interpreter that the program meets.\<close>

datatype error = RequestException | KeyError | ValueError | IndexError

text \<open>
  A key of a Python dictionary of the program: the caches are filled with integer keys
  by the fetchers, and with string keys by \<open>json.load\<close>. An integer and a string
  are never equal as keys.
\<close>

datatype cache_key = IntKey int | StrKey string

text \<open>
  The warnings the program schedules for display. The text of a warning is built when
  the window system runs the scheduled callback, from the variables as they are then
  (the callback for a skipped manual pick reads \<open>pokemon_name\<close> at that time), so a
  warning here is the fact that it was scheduled, without its text.
\<close>

datatype warning = LegendarySkipped | NoMoreFound

text \<open>A durable cache file: absent, unreadable as JSON, or a JSON object.\<close>

datatype 'v cache_file = Missing | Corrupt | Content "(string \<times> 'v) list"

text \<open>
  The global state of the module: the three caches (dictionaries keep insertion order,
  so the two that are serialised are association lists), the two durable files, the
  number of HTTP requests made so far and of shuffles drawn so far (the remote source
  and the random generator may answer differently each time), and the warnings shown.
\<close>

record state =
  pokemon_cache :: "(cache_key \<times> pokemon) list"
  species_cache :: "(cache_key \<times> species) list"
  evolution_cache :: "int \<rightharpoonup> int list"
  data_file :: "pokemon cache_file"
  species_file :: "species cache_file"
  requests :: nat
  shuffles :: nat
  warnings :: "warning list"

text \<open>
  The environment: what the remote source answers to the n-th request (\<open>None\<close> is a
  \<open>RequestException\<close>: no connection, an error status, or a body that is not JSON),
  what \<open>random.shuffle\<close> does at its n-th call, and whether each durable file can
  be written.
\<close>

record world =
  pokemon_doc :: "nat \<Rightarrow> int \<Rightarrow> pokemon option"
  species_doc :: "nat \<Rightarrow> int \<Rightarrow> species option"
  chain_doc :: "nat \<Rightarrow> string \<Rightarrow> evolution_doc option"
  name_index :: "nat \<Rightarrow> string list option"
  shuffle :: "nat \<Rightarrow> int list \<Rightarrow> int list"
  data_writable :: bool
  species_writable :: bool

record filters =
  type_filter_var :: bool
  evolution_filter_var :: bool
  legendary_filter_var :: bool

section \<open>Strings of the interpreter\<close>

text \<open>\<open>str(n)\<close> for an integer: decimal digits, with a minus sign.\<close>

definition digit_char :: "nat \<Rightarrow> char" where
  "digit_char d = ''0123456789'' ! d"

fun digit_chars :: "nat \<Rightarrow> string" where
  "digit_chars n =
     (if n < 10 then [digit_char n] else digit_chars (n div 10) @ [digit_char (n mod 10)])"

declare digit_chars.simps [simp del]

definition str :: "int \<Rightarrow> string" where
  "str i = (if i < 0 then CHR ''-'' # digit_chars (nat (- i)) else digit_chars (nat i))"

text \<open>\<open>s.split(sep)\<close> for a one-character separator: never an empty list.\<close>

fun split :: "char \<Rightarrow> string \<Rightarrow> string list" where
  "split sep [] = [[]]"
| "split sep (c # cs) =
     (if c = sep then [] # split sep cs
      else (case split sep cs of [] \<Rightarrow> [[c]] | p # ps \<Rightarrow> (c # p) # ps))"

text \<open>
  \<open>int(s)\<close> on an ASCII string: surrounding whitespace (tab, line feed, vertical tab,
  form feed, carriage return, space) is dropped, one sign is allowed, then decimal
  digits, with single underscores between digits. \<open>None\<close> is ValueError.
  (The interpreter's limit on the number of digits is not modelled.)
\<close>

definition is_space :: "char \<Rightarrow> bool" where
  "is_space c \<longleftrightarrow> c \<in> set [CHR 0x09, CHR 0x0A, CHR 0x0B, CHR 0x0C, CHR 0x0D, CHR 0x20]"

definition strip :: "string \<Rightarrow> string" where
  "strip s = rev (dropWhile is_space (rev (dropWhile is_space s)))"

definition digit_val :: "char \<Rightarrow> nat option" where
  "digit_val c = map_of (zip ''0123456789'' [0, 1, 2, 3, 4, 5, 6, 7, 8, 9]) c"

fun parse_digits :: "string \<Rightarrow> nat \<Rightarrow> nat option" where
  "parse_digits [] acc = Some acc"
| "parse_digits [c] acc =
     (case digit_val c of None \<Rightarrow> None | Some v \<Rightarrow> Some (10 * acc + v))"
| "parse_digits (c # d # ds) acc =
     (if c = CHR ''_'' then
        (case digit_val d of None \<Rightarrow> None | Some v \<Rightarrow> parse_digits ds (10 * acc + v))
      else
        (case digit_val c of None \<Rightarrow> None | Some v \<Rightarrow> parse_digits (d # ds) (10 * acc + v)))"

definition py_nat :: "string \<Rightarrow> nat option" where
  "py_nat s =
     (case s of [] \<Rightarrow> None
      | c # cs \<Rightarrow> (case digit_val c of None \<Rightarrow> None | Some v \<Rightarrow> parse_digits cs v))"

definition py_int :: "string \<Rightarrow> int option" where
  "py_int s =
     (case strip s of
        [] \<Rightarrow> None
      | c # cs \<Rightarrow>
          if c = CHR ''+'' then map_option int (py_nat cs)
          else if c = CHR ''-'' then map_option (\<lambda>n. - int n) (py_nat cs)
          else map_option int (py_nat (c # cs)))"

text \<open>\<open>s.capitalize()\<close> on an ASCII string: first letter upper case, the rest lower.\<close>

definition upper :: "char \<Rightarrow> char" where
  "upper c =
     (case map_of (zip ''abcdefghijklmnopqrstuvwxyz'' ''ABCDEFGHIJKLMNOPQRSTUVWXYZ'') c of
        None \<Rightarrow> c | Some u \<Rightarrow> u)"

definition lower :: "char \<Rightarrow> char" where
  "lower c =
     (case map_of (zip ''ABCDEFGHIJKLMNOPQRSTUVWXYZ'' ''abcdefghijklmnopqrstuvwxyz'') c of
        None \<Rightarrow> c | Some l \<Rightarrow> l)"

definition capitalize :: "string \<Rightarrow> string" where
  "capitalize s = (case s of [] \<Rightarrow> [] | c # cs \<Rightarrow> upper c # map lower cs)"

text \<open>\<open>xs.index(x)\<close>: the first position of \<open>x\<close>; \<open>None\<close> is ValueError.\<close>

fun index :: "'a list \<Rightarrow> 'a \<Rightarrow> nat option" where
  "index [] x = None"
| "index (y # ys) x = (if y = x then Some 0 else map_option Suc (index ys x))"

section \<open>Cache layers\<close>

text \<open>
  \<open>json.dump\<close> of a dictionary writes every key as a string (an integer key by
  \<open>str\<close>), in the dictionary's order; \<open>json.load\<close> builds a dictionary by
  assigning the members in the file's order, so a repeated key keeps its last value,
  and every key of the result is a string.
\<close>

definition json_key :: "cache_key \<Rightarrow> string" where
  "json_key k = (case k of IntKey i \<Rightarrow> str i | StrKey s \<Rightarrow> s)"

definition json_dump :: "(cache_key \<times> 'v) list \<Rightarrow> (string \<times> 'v) list" where
  "json_dump d = map (\<lambda>(k, v). (json_key k, v)) d"

definition json_load :: "(string \<times> 'v) list \<Rightarrow> (cache_key \<times> 'v) list" where
  "json_load members = fold (\<lambda>(k, v) d. AList.update (StrKey k) v d) members []"

text \<open>
  \<open>load_cache\<close>: each file is read if it exists; the first unreadable one raises, the
  handler prints, and what was assigned before stays assigned.
\<close>

definition load_cache :: "state \<Rightarrow> state" where
  "load_cache s =
     (case data_file s of
        Corrupt \<Rightarrow> s
      | Missing \<Rightarrow>
          (case species_file s of
             Content sm \<Rightarrow> s\<lparr>species_cache := json_load sm\<rparr>
           | _ \<Rightarrow> s)
      | Content pm \<Rightarrow>
          (case species_file s of
             Content sm \<Rightarrow> s\<lparr>pokemon_cache := json_load pm, species_cache := json_load sm\<rparr>
           | _ \<Rightarrow> s\<lparr>pokemon_cache := json_load pm\<rparr>))"

text \<open>
  \<open>save_cache\<close>: the data file is written, then the species file; a failure to write
  raises, the handler prints, and the files written before stay written.
\<close>

definition save_cache :: "world \<Rightarrow> state \<Rightarrow> state" where
  "save_cache w s =
     (if \<not> data_writable w then s
      else if \<not> species_writable w then s\<lparr>data_file := Content (json_dump (pokemon_cache s))\<rparr>
      else s\<lparr>data_file := Content (json_dump (pokemon_cache s)),
             species_file := Content (json_dump (species_cache s))\<rparr>)"

section \<open>Remote data fetcher\<close>

definition tick :: "state \<Rightarrow> state" where
  "tick s = s\<lparr>requests := Suc (requests s)\<rparr>"

definition get_pokemon_data :: "world \<Rightarrow> int \<Rightarrow> state \<Rightarrow> pokemon option \<times> state" where
  "get_pokemon_data w pokemon_id s =
     (case map_of (pokemon_cache s) (IntKey pokemon_id) of
        Some data \<Rightarrow> (Some data, s)
      | None \<Rightarrow>
          (case pokemon_doc w (requests s) pokemon_id of
             Some data \<Rightarrow>
               (Some data,
                tick (s\<lparr>pokemon_cache := AList.update (IntKey pokemon_id) data (pokemon_cache s)\<rparr>))
           | None \<Rightarrow> (None, tick s)))"

definition get_pokemon_species_data :: "world \<Rightarrow> int \<Rightarrow> state \<Rightarrow> species option \<times> state" where
  "get_pokemon_species_data w pokemon_id s =
     (case map_of (species_cache s) (IntKey pokemon_id) of
        Some data \<Rightarrow> (Some data, s)
      | None \<Rightarrow>
          (case species_doc w (requests s) pokemon_id of
             Some data \<Rightarrow>
               (Some data,
                tick (s\<lparr>species_cache := AList.update (IntKey pokemon_id) data (species_cache s)\<rparr>))
           | None \<Rightarrow> (None, tick s)))"

text \<open>
  \<open>get_all_pokemon\<close>: the name index, every name capitalised; the empty list when the
  request fails.
\<close>

definition get_all_pokemon :: "world \<Rightarrow> state \<Rightarrow> string list \<times> state" where
  "get_all_pokemon w s =
     (case name_index w (requests s) of
        Some names \<Rightarrow> (map capitalize names, tick s)
      | None \<Rightarrow> ([], tick s))"

section \<open>Prefetcher\<close>

text \<open>
  The worker pool runs one task per id and waits for all of them. A task fetches an id
  that is not in the cache and swallows every failure. The tasks are taken here in the
  order of the list.
\<close>

definition fetch_single_pokemon :: "world \<Rightarrow> int \<Rightarrow> state \<Rightarrow> state" where
  "fetch_single_pokemon w pokemon_id s =
     (case map_of (pokemon_cache s) (IntKey pokemon_id) of
        Some _ \<Rightarrow> s
      | None \<Rightarrow>
          (case pokemon_doc w (requests s) pokemon_id of
             Some data \<Rightarrow>
               tick (s\<lparr>pokemon_cache := AList.update (IntKey pokemon_id) data (pokemon_cache s)\<rparr>)
           | None \<Rightarrow> tick s))"

definition fetch_single_species :: "world \<Rightarrow> int \<Rightarrow> state \<Rightarrow> state" where
  "fetch_single_species w pokemon_id s =
     (case map_of (species_cache s) (IntKey pokemon_id) of
        Some _ \<Rightarrow> s
      | None \<Rightarrow>
          (case species_doc w (requests s) pokemon_id of
             Some data \<Rightarrow>
               tick (s\<lparr>species_cache := AList.update (IntKey pokemon_id) data (species_cache s)\<rparr>)
           | None \<Rightarrow> tick s))"

definition prefetch_pokemon_data :: "world \<Rightarrow> int list \<Rightarrow> state \<Rightarrow> state" where
  "prefetch_pokemon_data w pokemon_ids s = fold (fetch_single_pokemon w) pokemon_ids s"

definition prefetch_species_data :: "world \<Rightarrow> int list \<Rightarrow> state \<Rightarrow> state" where
  "prefetch_species_data w pokemon_ids s = fold (fetch_single_species w) pokemon_ids s"

section \<open>Evolution resolver\<close>

text \<open>
  The id of a chain node: \<open>int(species_url.split('/')[-2])\<close>. A missing key raises
  KeyError, fewer than two segments IndexError, a segment that is no integer ValueError.
\<close>

definition species_id :: "string option \<Rightarrow> error + int" where
  "species_id u =
     (case u of
        None \<Rightarrow> Inl KeyError
      | Some species_url \<Rightarrow>
          (let parts = split CHR ''/'' species_url in
           if length parts < 2 then Inl IndexError
           else (case py_int (parts ! (length parts - 2)) of
                   None \<Rightarrow> Inl ValueError
                 | Some i \<Rightarrow> Inr i)))"

text \<open>
  \<open>extract_chain\<close> appends the node's id to the list it is building, then visits each
  node of \<open>evolves_to\<close> in order; the second argument is the list built so far.
\<close>

fun extract_chain :: "chain_link \<Rightarrow> int list \<Rightarrow> error + int list"
  and extract_children :: "chain_link list \<Rightarrow> int list \<Rightarrow> error + int list" where
  "extract_chain (ChainLink u evolved) evolution_chain =
     (case species_id u of
        Inl e \<Rightarrow> Inl e
      | Inr pokemon_id \<Rightarrow> extract_children evolved (evolution_chain @ [pokemon_id]))"
| "extract_children [] evolution_chain = Inr evolution_chain"
| "extract_children (c # cs) evolution_chain =
     (case extract_chain c evolution_chain of
        Inl e \<Rightarrow> Inl e
      | Inr evolution_chain' \<Rightarrow> extract_children cs evolution_chain')"

text \<open>The body of the \<open>try\<close> of \<open>get_evolution_chain\<close>, up to the traversal.\<close>

definition fetch_chain :: "world \<Rightarrow> species \<Rightarrow> state \<Rightarrow> (error + int list) \<times> state" where
  "fetch_chain w species_data s =
     (case sp_evolution_chain_url species_data of
        None \<Rightarrow> (Inl KeyError, s)
      | Some evolution_url \<Rightarrow>
          (case chain_doc w (requests s) evolution_url of
             None \<Rightarrow> (Inl RequestException, tick s)
           | Some evolution_data \<Rightarrow>
               (case chain evolution_data of
                  None \<Rightarrow> (Inl KeyError, tick s)
                | Some root \<Rightarrow> (extract_chain root [], tick s))))"

text \<open>
  The handler catches RequestException, KeyError and ValueError and returns the empty
  list; any other exception leaves the function.
\<close>

definition get_evolution_chain :: "world \<Rightarrow> int \<Rightarrow> state \<Rightarrow> (error + int list) \<times> state" where
  "get_evolution_chain w pokemon_id s =
     (case evolution_cache s pokemon_id of
        Some evolution_chain \<Rightarrow> (Inr evolution_chain, s)
      | None \<Rightarrow>
          (case get_pokemon_species_data w pokemon_id s of
             (None, s1) \<Rightarrow> (Inr [], s1)
           | (Some species_data, s1) \<Rightarrow>
               (case fetch_chain w species_data s1 of
                  (Inr evolution_chain, s2) \<Rightarrow>
                    (Inr evolution_chain,
                     s2\<lparr>evolution_cache := (evolution_cache s2)(pokemon_id \<mapsto> evolution_chain)\<rparr>)
                | (Inl IndexError, s2) \<Rightarrow> (Inl IndexError, s2)
                | (Inl _, s2) \<Rightarrow> (Inr [], s2))))"

definition is_fully_evolved :: "world \<Rightarrow> int \<Rightarrow> state \<Rightarrow> (error + bool) \<times> state" where
  "is_fully_evolved w pokemon_id s =
     (case get_evolution_chain w pokemon_id s of
        (Inl e, s1) \<Rightarrow> (Inl e, s1)
      | (Inr evolution_chain, s1) \<Rightarrow>
          (if evolution_chain = [] then (Inr True, s1)
           else (Inr (pokemon_id = last evolution_chain), s1)))"

definition is_legendary :: "world \<Rightarrow> int \<Rightarrow> state \<Rightarrow> bool \<times> state" where
  "is_legendary w pokemon_id s =
     (case get_pokemon_species_data w pokemon_id s of
        (None, s1) \<Rightarrow> (False, s1)
      | (Some species_data, s1) \<Rightarrow>
          ((case sp_is_legendary species_data of None \<Rightarrow> False | Some b \<Rightarrow> b) \<or>
           (case sp_is_mythical species_data of None \<Rightarrow> False | Some b \<Rightarrow> b), s1))"

section \<open>Team sampler\<close>

definition gen_ranges :: "int \<rightharpoonup> int \<times> int" where
  "gen_ranges =
     [1 \<mapsto> (1, 151), 2 \<mapsto> (152, 251), 3 \<mapsto> (252, 386), 4 \<mapsto> (387, 493), 5 \<mapsto> (494, 649),
      6 \<mapsto> (650, 721), 7 \<mapsto> (722, 809), 8 \<mapsto> (810, 905), 9 \<mapsto> (906, 1025)]"

text \<open>
  The loop that collects the ids of the selected generations; the second argument is
  the list built so far. A generation outside the table raises KeyError.
\<close>

fun collect_ids :: "int list \<Rightarrow> int list \<Rightarrow> error + int list" where
  "collect_ids [] valid_ids = Inr valid_ids"
| "collect_ids (gen # gens) valid_ids =
     (case gen_ranges gen of
        None \<Rightarrow> Inl KeyError
      | Some (start, end) \<Rightarrow> collect_ids gens (valid_ids @ [start..end]))"

text \<open>
  One round of the \<open>for\<close> loop of \<open>get_random_pokemon\<close>: \<open>Inr (Some data)\<close> is
  the \<open>return\<close>, \<open>Inr None\<close> a \<open>continue\<close>. The checks run in the source's order, and
  a check whose filter is off is not called.
\<close>

definition check_candidate ::
  "world \<Rightarrow> int \<Rightarrow> string set option \<Rightarrow> bool \<Rightarrow> bool \<Rightarrow> state \<Rightarrow> (error + pokemon option) \<times> state"
where
  "check_candidate w pokemon_id existing_types evolution_filter exclude_legendary s =
     (case get_pokemon_data w pokemon_id s of
        (None, s1) \<Rightarrow> (Inr None, s1)
      | (Some pokemon_data, s1) \<Rightarrow>
          (case (if evolution_filter then is_fully_evolved w pokemon_id s1 else (Inr True, s1)) of
             (Inl e, s2) \<Rightarrow> (Inl e, s2)
           | (Inr False, s2) \<Rightarrow> (Inr None, s2)
           | (Inr True, s2) \<Rightarrow>
               (case (if exclude_legendary then is_legendary w pokemon_id s2 else (False, s2)) of
                  (True, s3) \<Rightarrow> (Inr None, s3)
                | (False, s3) \<Rightarrow>
                    (case existing_types of
                       None \<Rightarrow> (Inr (Some pokemon_data), s3)
                     | Some types \<Rightarrow>
                         if set (ptypes pokemon_data) \<inter> types \<noteq> {} then (Inr None, s3)
                         else (Inr (Some pokemon_data), s3)))))"

fun try_candidates ::
  "world \<Rightarrow> int list \<Rightarrow> string set option \<Rightarrow> bool \<Rightarrow> bool \<Rightarrow> state \<Rightarrow> (error + pokemon option) \<times> state"
where
  "try_candidates w [] existing_types evolution_filter exclude_legendary s = (Inr None, s)"
| "try_candidates w (pokemon_id # rest) existing_types evolution_filter exclude_legendary s =
     (case check_candidate w pokemon_id existing_types evolution_filter exclude_legendary s of
        (Inr None, s1) \<Rightarrow> try_candidates w rest existing_types evolution_filter exclude_legendary s1
      | r \<Rightarrow> r)"

definition get_random_pokemon ::
  "world \<Rightarrow> int list \<Rightarrow> string set option \<Rightarrow> bool \<Rightarrow> bool \<Rightarrow> state \<Rightarrow> (error + pokemon option) \<times> state"
where
  "get_random_pokemon w selected_generations existing_types evolution_filter exclude_legendary s =
     (case collect_ids selected_generations [] of
        Inl e \<Rightarrow> (Inl e, s)
      | Inr valid_ids \<Rightarrow>
          if valid_ids = [] then (Inr None, s)
          else try_candidates w (shuffle w (shuffles s) valid_ids)
                 existing_types evolution_filter exclude_legendary
                 (s\<lparr>shuffles := Suc (shuffles s)\<rparr>))"

definition warn :: "warning \<Rightarrow> state \<Rightarrow> state" where
  "warn m s = s\<lparr>warnings := warnings s @ [m]\<rparr>"

text \<open>
  One selector of the manual selection: the roster so far, the types used so far and
  the state go in and come out. An empty selector is skipped; a name that is not in the
  index raises ValueError, which the handler turns into \<open>continue\<close>.
\<close>

definition manual_pick ::
  "world \<Rightarrow> filters \<Rightarrow> string \<Rightarrow> pokemon list \<times> string set \<times> state \<Rightarrow> pokemon list \<times> string set \<times> state"
where
  "manual_pick w f pokemon_name acc =
     (case acc of (selected_pokemon, selected_types, s) \<Rightarrow>
        if pokemon_name = [] then acc
        else
          (case get_all_pokemon w s of (names, s1) \<Rightarrow>
             (case index names pokemon_name of
                None \<Rightarrow> (selected_pokemon, selected_types, s1)
              | Some i \<Rightarrow>
                  (case get_pokemon_data w (int i + 1) s1 of
                     (None, s2) \<Rightarrow> (selected_pokemon, selected_types, s2)
                   | (Some pokemon_data, s2) \<Rightarrow>
                       (case (if legendary_filter_var f then is_legendary w (int i + 1) s2
                              else (False, s2)) of
                          (True, s3) \<Rightarrow>
                            (selected_pokemon, selected_types, warn LegendarySkipped s3)
                        | (False, s3) \<Rightarrow>
                            (selected_pokemon @ [pokemon_data],
                             if type_filter_var f then selected_types \<union> set (ptypes pokemon_data)
                             else selected_types,
                             s3))))))"

definition manual_picks ::
  "world \<Rightarrow> filters \<Rightarrow> string list \<Rightarrow> state \<Rightarrow> pokemon list \<times> string set \<times> state"
where
  "manual_picks w f pokemon_selectors s = fold (manual_pick w f) pokemon_selectors ([], {}, s)"

text \<open>
  The \<open>while\<close> loop that fills the roster. Nothing in its shape bounds the number of
  rounds, so it is a partial function: \<open>None\<close> would be a loop that never ends.
\<close>

partial_function (option) fill_loop ::
  "world \<Rightarrow> int list \<Rightarrow> filters \<Rightarrow> pokemon list \<Rightarrow> string set \<Rightarrow> state
     \<Rightarrow> ((error + pokemon list) \<times> state) option"
where
  "fill_loop w selected_generations f selected_pokemon selected_types s =
     (if length selected_pokemon < 6 then
        (case get_random_pokemon w selected_generations
                (if type_filter_var f then Some selected_types else None)
                (evolution_filter_var f) (legendary_filter_var f) s of
           (Inl e, s1) \<Rightarrow> Some (Inl e, s1)
         | (Inr None, s1) \<Rightarrow> Some (Inr selected_pokemon, warn NoMoreFound s1)
         | (Inr (Some pokemon_data), s1) \<Rightarrow>
             fill_loop w selected_generations f
               (selected_pokemon @ [pokemon_data])
               (if type_filter_var f then selected_types \<union> set (ptypes pokemon_data)
                else selected_types)
               s1)
      else Some (Inr selected_pokemon, s))"

text \<open>
  \<open>generate_pokemon_team\<close>, up to the hand-over of the roster: the ids of the selected
  generations, the two prefetches, the manual selection, the random fill. (The display
  that follows it calls \<open>save_cache\<close>.)
\<close>

definition prefetched :: "world \<Rightarrow> int list \<Rightarrow> state \<Rightarrow> state" where
  "prefetched w pokemon_ids s = prefetch_species_data w pokemon_ids (prefetch_pokemon_data w pokemon_ids s)"

definition generate_pokemon_team ::
  "world \<Rightarrow> int list \<Rightarrow> string list \<Rightarrow> filters \<Rightarrow> state \<Rightarrow> ((error + pokemon list) \<times> state) option"
where
  "generate_pokemon_team w selected_generations pokemon_selectors f s =
     (case collect_ids selected_generations [] of
        Inl e \<Rightarrow> Some (Inl e, s)
      | Inr pokemon_ids \<Rightarrow>
          (case manual_picks w f pokemon_selectors (prefetched w pokemon_ids s) of
             (selected_pokemon, selected_types, s1) \<Rightarrow>
               fill_loop w selected_generations f selected_pokemon selected_types s1))"

section \<open>The traversal as the specification words it\<close>

text \<open>
  Pre-order of a tree: a node before every node of its subtrees, the subtrees in the
  order the document lists them.
\<close>

fun preorder_spec :: "chain_link \<Rightarrow> chain_link list" where
  "preorder_spec (ChainLink u evolved) = ChainLink u evolved # concat (map preorder_spec evolved)"

text \<open>The ids of a sequence of nodes, in order; the first node without an id fails.\<close>

fun node_ids :: "chain_link list \<Rightarrow> error + int list" where
  "node_ids [] = Inr []"
| "node_ids (n # ns) =
     (case species_id (link_species_url n) of
        Inl e \<Rightarrow> Inl e
      | Inr i \<Rightarrow> (case node_ids ns of Inl e \<Rightarrow> Inl e | Inr ids \<Rightarrow> Inr (i # ids)))"

section \<open>Notions for the properties\<close>

text \<open>
  The primary records the program can come to hold from a state on: those in the cache
  under an integer key, and those the remote source serves at some time for some id.
\<close>

definition served :: "world \<Rightarrow> state \<Rightarrow> pokemon set" where
  "served w s =
     {r. (\<exists>i. map_of (pokemon_cache s) (IntKey i) = Some r) \<or> (\<exists>t i. pokemon_doc w t i = Some r)}"

text \<open>
  What the manual selection keeps true of the roster, the used types and the state:
  every entry comes from the records of the state \<open>s0\<close>, and with the type filter on
  the used types hold the types of every entry.
\<close>

definition picked_from :: "world \<Rightarrow> filters \<Rightarrow> state \<Rightarrow> pokemon list \<times> string set \<times> state \<Rightarrow> bool" where
  "picked_from w f s0 acc =
     (case acc of (sel, T, s) \<Rightarrow>
        set sel \<subseteq> served w s0 \<and> served w s \<subseteq> served w s0 \<and>
        (type_filter_var f \<longrightarrow> (\<forall>r\<in>set sel. set (ptypes r) \<subseteq> T)))"

text \<open>
  A source that answers the same at every time, and a shuffle that leaves the order:
  on such a world a run can be followed by hand.
\<close>

definition steady :: "world \<Rightarrow> bool" where
  "steady w \<longleftrightarrow>
     (\<forall>t. pokemon_doc w t = pokemon_doc w 0) \<and> (\<forall>t. species_doc w t = species_doc w 0) \<and>
     (\<forall>t. name_index w t = name_index w 0) \<and> (\<forall>n ids. shuffle w n ids = ids)"

text \<open>The record that a fetch of an id gives in a state, on a steady world.\<close>

definition held_pokemon :: "world \<Rightarrow> state \<Rightarrow> int \<Rightarrow> pokemon option" where
  "held_pokemon w s i =
     (case map_of (pokemon_cache s) (IntKey i) of Some r \<Rightarrow> Some r | None \<Rightarrow> pokemon_doc w 0 i)"

definition held_species :: "world \<Rightarrow> state \<Rightarrow> int \<Rightarrow> species option" where
  "held_species w s i =
     (case map_of (species_cache s) (IntKey i) of Some r \<Rightarrow> Some r | None \<Rightarrow> species_doc w 0 i)"

definition notable :: "species option \<Rightarrow> bool" where
  "notable sp =
     (case sp of None \<Rightarrow> False
      | Some d \<Rightarrow> sp_is_legendary d = Some True \<or> sp_is_mythical d = Some True)"

text \<open>
  The random fill without the evolution filter, as a function of the records held:
  whether a candidate passes, the first candidate of a list that passes, and the roster
  after at most \<open>n\<close> more rounds.
\<close>

definition passes ::
  "(int \<Rightarrow> pokemon option) \<Rightarrow> (int \<Rightarrow> species option) \<Rightarrow> string set option \<Rightarrow> bool \<Rightarrow> int
     \<Rightarrow> pokemon option"
where
  "passes P S et el i =
     (case P i of
        None \<Rightarrow> None
      | Some d \<Rightarrow>
          if el \<and> notable (S i) then None
          else (case et of
                  None \<Rightarrow> Some d
                | Some T \<Rightarrow> if set (ptypes d) \<inter> T \<noteq> {} then None else Some d))"

fun first_passing ::
  "(int \<Rightarrow> pokemon option) \<Rightarrow> (int \<Rightarrow> species option) \<Rightarrow> string set option \<Rightarrow> bool \<Rightarrow> int list
     \<Rightarrow> pokemon option"
where
  "first_passing P S et el [] = None"
| "first_passing P S et el (i # ids) =
     (case passes P S et el i of Some d \<Rightarrow> Some d | None \<Rightarrow> first_passing P S et el ids)"

fun fill_of ::
  "(int \<Rightarrow> pokemon option) \<Rightarrow> (int \<Rightarrow> species option) \<Rightarrow> int list \<Rightarrow> filters \<Rightarrow> nat
     \<Rightarrow> pokemon list \<Rightarrow> string set \<Rightarrow> error + pokemon list"
where
  "fill_of P S gens f 0 sel T = Inr sel"
| "fill_of P S gens f (Suc n) sel T =
     (case collect_ids gens [] of
        Inl e \<Rightarrow> Inl e
      | Inr ids \<Rightarrow>
          (case first_passing P S (if type_filter_var f then Some T else None)
                  (legendary_filter_var f) ids of
             None \<Rightarrow> Inr sel
           | Some d \<Rightarrow>
               fill_of P S gens f n (sel @ [d])
                 (if type_filter_var f then T \<union> set (ptypes d) else T)))"

section \<open>Concrete inputs\<close>

text \<open>A process that has just started: empty caches, no durable files.\<close>

definition empty_state :: state where
  "empty_state =
     \<lparr>pokemon_cache = [], species_cache = [], evolution_cache = Map.empty,
      data_file = Missing, species_file = Missing, requests = 0, shuffles = 0, warnings = []\<rparr>"

text \<open>A remote source that answers no request; the shuffle leaves the list as it is.\<close>

definition offline :: world where
  "offline =
     \<lparr>pokemon_doc = (\<lambda>t i. None), species_doc = (\<lambda>t i. None), chain_doc = (\<lambda>t u. None),
      name_index = (\<lambda>t. None), shuffle = (\<lambda>n ids. ids),
      data_writable = True, species_writable = True\<rparr>"

text \<open>The evolution tree of Wurmple: two branches of two stages each.\<close>

definition species_url :: "string \<Rightarrow> string" where
  "species_url n = ''https://pokeapi.co/api/v2/pokemon-species/'' @ n @ ''/''"





text \<open>
  A new process: the module starts with empty caches and \<open>main\<close> calls
  \<open>load_cache\<close>; the durable files are what the last process left.
\<close>

definition startup :: "state \<Rightarrow> state" where
  "startup s = load_cache (s\<lparr>pokemon_cache := [], species_cache := [], evolution_cache := Map.empty\<rparr>)"

definition bulbasaur :: pokemon where
  "bulbasaur =
     \<lparr>pid = 1, pname = ''bulbasaur'', ptypes = [''grass'', ''poison''], height = 7, weight = 69,
      front_default = Some ''https://raw.githubusercontent.com/PokeAPI/sprites/master/sprites/pokemon/1.png'',
      front_shiny = Some ''https://raw.githubusercontent.com/PokeAPI/sprites/master/sprites/pokemon/shiny/1.png''\<rparr>"

definition bulbasaur_species :: species where
  "bulbasaur_species =
     \<lparr>sp_is_legendary = Some False, sp_is_mythical = Some False,
      sp_evolution_chain_url = Some ''https://pokeapi.co/api/v2/evolution-chain/1/'',
      sp_names = [(''de'', ''Bisasam''), (''en'', ''Bulbasaur'')]\<rparr>"

text \<open>The state after one successful fetch of each record of id 1.\<close>

definition warm_state :: state where
  "warm_state =
     empty_state\<lparr>pokemon_cache := [(IntKey 1, bulbasaur)],
                 species_cache := [(IntKey 1, bulbasaur_species)], requests := 2\<rparr>"

text \<open>A chain document whose root names its species by a URL without a slash.\<close>

definition slashless_world :: world where
  "slashless_world =
     offline\<lparr>species_doc := (\<lambda>t i. Some bulbasaur_species),
             chain_doc := (\<lambda>t u. Some \<lparr>chain = Some (ChainLink (Some ''bulbasaur'') [])\<rparr>)\<rparr>"

text \<open>
  A remote source that serves three entities: Bulbasaur (id 1) and Ivysaur (id 2), of
  the same types and the same chain, and the legendary Mewtwo (id 150).
\<close>

definition ivysaur :: pokemon where
  "ivysaur =
     \<lparr>pid = 2, pname = ''ivysaur'', ptypes = [''grass'', ''poison''], height = 10, weight = 130,
      front_default = None, front_shiny = None\<rparr>"

definition mewtwo :: pokemon where
  "mewtwo =
     \<lparr>pid = 150, pname = ''mewtwo'', ptypes = [''psychic''], height = 20, weight = 1220,
      front_default = None, front_shiny = None\<rparr>"

definition mewtwo_species :: species where
  "mewtwo_species =
     \<lparr>sp_is_legendary = Some True, sp_is_mythical = Some False,
      sp_evolution_chain_url = Some ''https://pokeapi.co/api/v2/evolution-chain/77/'',
      sp_names = [(''de'', ''Mewtu'')]\<rparr>"

definition bulbasaur_root :: chain_link where
  "bulbasaur_root =
     ChainLink (Some (species_url ''1''))
       [ChainLink (Some (species_url ''2'')) [ChainLink (Some (species_url ''3'')) []]]"

definition kanto :: world where
  "kanto =
     offline\<lparr>
       pokemon_doc := (\<lambda>t i. if i = 1 then Some bulbasaur else if i = 2 then Some ivysaur
                              else if i = 150 then Some mewtwo else None),
       species_doc := (\<lambda>t i. if i = 1 \<or> i = 2 then Some bulbasaur_species
                              else if i = 150 then Some mewtwo_species else None),
       chain_doc := (\<lambda>t u. if u = ''https://pokeapi.co/api/v2/evolution-chain/1/''
                            then Some \<lparr>chain = Some bulbasaur_root\<rparr>
                            else if u = ''https://pokeapi.co/api/v2/evolution-chain/77/''
                            then Some \<lparr>chain = Some (ChainLink (Some (species_url ''150'')) [])\<rparr>
                            else None),
       name_index := (\<lambda>t. Some ([''bulbasaur'', ''ivysaur''] @ replicate 147 ''unnamed'' @ [''mewtwo'']))\<rparr>"


definition no_filters :: filters where
  "no_filters = \<lparr>type_filter_var = False, evolution_filter_var = False, legendary_filter_var = False\<rparr>"

definition type_filter_only :: filters where
  "type_filter_only = \<lparr>type_filter_var = True, evolution_filter_var = False, legendary_filter_var = False\<rparr>"

text \<open>
  A remote source that serves one entity of the sixth generation, the legendary
  Xerneas (id 716), and nothing else.
\<close>

definition xerneas :: pokemon where
  "xerneas =
     \<lparr>pid = 716, pname = ''xerneas'', ptypes = [''fairy''], height = 30, weight = 2150,
      front_default = None, front_shiny = None\<rparr>"

definition xerneas_species :: species where
  "xerneas_species =
     \<lparr>sp_is_legendary = Some True, sp_is_mythical = Some False,
      sp_evolution_chain_url = Some ''https://pokeapi.co/api/v2/evolution-chain/370/'',
      sp_names = [(''de'', ''Xerneas'')]\<rparr>"

definition kalos :: world where
  "kalos =
     offline\<lparr>pokemon_doc := (\<lambda>t i. if i = 716 then Some xerneas else None),
             species_doc := (\<lambda>t i. if i = 716 then Some xerneas_species else None)\<rparr>"

definition legendary_filter_only :: filters where
  "legendary_filter_only =
     \<lparr>type_filter_var = False, evolution_filter_var = False, legendary_filter_var = True\<rparr>"

section \<open>Properties\<close>

subsection \<open>Candidate ids\<close>

lemma gen_ranges_defined: "1 \<le> g \<Longrightarrow> g \<le> 9 \<Longrightarrow> \<exists>a b. gen_ranges g = Some (a, b)"
proof -
  assume "1 \<le> g" "g \<le> 9"
  then have "g = 1 \<or> g = 2 \<or> g = 3 \<or> g = 4 \<or> g = 5 \<or> g = 6 \<or> g = 7 \<or> g = 8 \<or> g = 9"
    by arith
  then show ?thesis
    by (auto simp: gen_ranges_def)
qed

lemma collect_ids_set:
  "collect_ids gens acc = Inr ids \<Longrightarrow>
   set ids = set acc \<union> (\<Union>g\<in>set gens. {i. \<exists>a b. gen_ranges g = Some (a, b) \<and> a \<le> i \<and> i \<le> b})"
proof (induction gens arbitrary: acc)
  case Nil
  then show ?case by simp
next
  case (Cons g gens)
  from Cons.prems obtain a b where g: "gen_ranges g = Some (a, b)"
    and rest: "collect_ids gens (acc @ [a..b]) = Inr ids"
    by (auto split: option.splits)
  from Cons.IH [OF rest] g show ?case
    by auto
qed

lemma collect_ids_defined:
  "\<forall>g\<in>set gens. 1 \<le> g \<and> g \<le> 9 \<Longrightarrow> \<exists>ids. collect_ids gens acc = Inr ids"
proof (induction gens arbitrary: acc)
  case Nil
  then show ?case by simp
next
  case (Cons g gens)
  then obtain a b where "gen_ranges g = Some (a, b)"
    using gen_ranges_defined [of g] by auto
  with Cons show ?case by simp
qed

lemma collect_ids_1: "collect_ids [1] [] = Inr [1..151]"
  by (simp add: gen_ranges_def del: upto_rec_numeral)

lemma collect_ids_1_3: "collect_ids [1, 3] [] = Inr ([1..151] @ [252..386])"
  by (simp add: gen_ranges_def del: upto_rec_numeral)

text \<open>
  Claim C6. The candidate ids computed from the selected generations are the union of
  the inclusive id intervals that the table gives those generations; for the selection
  1 they are exactly 1..151, and for the selection 1, 3 exactly 1..151 and 252..386.
\<close>

theorem candidate_set_is_union_of_ranges:
  "(set gens \<subseteq> {1..9} \<longrightarrow>
      (\<exists>ids. collect_ids gens [] = Inr ids \<and>
         set ids = (\<Union>g\<in>set gens. {i. \<exists>a b. gen_ranges g = Some (a, b) \<and> a \<le> i \<and> i \<le> b}))) \<and>
   (\<exists>ids. collect_ids [1] [] = Inr ids \<and> set ids = {1..151}) \<and>
   (\<exists>ids. collect_ids [1, 3] [] = Inr ids \<and> set ids = {1..151} \<union> {252..386})"
proof (intro conjI impI)
  assume sub: "set gens \<subseteq> {1..9}"
  then have "\<forall>g\<in>set gens. 1 \<le> g \<and> g \<le> 9" by auto
  from collect_ids_defined [OF this] obtain ids where ids: "collect_ids gens [] = Inr ids"
    by blast
  from collect_ids_set [OF ids] ids
  show "\<exists>ids. collect_ids gens [] = Inr ids \<and>
         set ids = (\<Union>g\<in>set gens. {i. \<exists>a b. gen_ranges g = Some (a, b) \<and> a \<le> i \<and> i \<le> b})"
    by simp
next
  have "set [1..151] = {1..151::int}"
    by (rule set_upto)
  with collect_ids_1 show "\<exists>ids. collect_ids [1] [] = Inr ids \<and> set ids = {1..151}"
    by blast
next
  have "set ([1..151] @ [252..386]) = {1..151::int} \<union> {252..386}"
    by (simp only: set_append set_upto)
  with collect_ids_1_3
  show "\<exists>ids. collect_ids [1, 3] [] = Inr ids \<and> set ids = {1..151} \<union> {252..386}"
    by blast
qed

theorem candidate_set_is_union_of_ranges_witness:
  "set [6::int] \<subseteq> {1..9} \<and> (\<exists>ids. collect_ids [6] [] = Inr ids \<and> set ids = {650..721})"
proof -
  have "set [6::int] \<subseteq> {1..9}" by simp
  moreover have "(\<Union>g\<in>set [6::int]. {i. \<exists>a b. gen_ranges g = Some (a, b) \<and> a \<le> i \<and> i \<le> b}) = {650..721}"
    by (auto simp: gen_ranges_def)
  ultimately show ?thesis
    using candidate_set_is_union_of_ranges [of "[6]"] by simp
qed

subsection \<open>Constraint predicates\<close>

text \<open>
  Claim C4. \<open>is_fully_evolved\<close> answers true exactly when the chain that
  \<open>get_evolution_chain\<close> returns is empty or ends with the queried id, and false
  in every other case; it raises only what \<open>get_evolution_chain\<close> raises.
\<close>

theorem is_fully_evolved_iff:
  "is_fully_evolved w pokemon_id s =
     (case get_evolution_chain w pokemon_id s of
        (Inl e, s1) \<Rightarrow> (Inl e, s1)
      | (Inr evolution_chain, s1) \<Rightarrow>
          (Inr (evolution_chain = [] \<or> pokemon_id = last evolution_chain), s1))"
  by (simp add: is_fully_evolved_def split: prod.splits sum.splits)

text \<open>
  Claim C9. \<open>is_legendary\<close> answers true exactly when the species record it obtains
  has its legendary flag or its mythical flag set; when no species record can be
  obtained it answers false, and it raises nothing.
\<close>

theorem is_legendary_iff:
  "is_legendary w pokemon_id s =
     (case get_pokemon_species_data w pokemon_id s of
        (None, s1) \<Rightarrow> (False, s1)
      | (Some species_data, s1) \<Rightarrow>
          (sp_is_legendary species_data = Some True \<or> sp_is_mythical species_data = Some True, s1))"
  by (auto simp: is_legendary_def split: prod.splits option.splits)

subsection \<open>Evolution resolver\<close>

lemma node_ids_append:
  "node_ids (xs @ ys) =
     (case node_ids xs of
        Inl e \<Rightarrow> Inl e
      | Inr is \<Rightarrow> (case node_ids ys of Inl e \<Rightarrow> Inl e | Inr js \<Rightarrow> Inr (is @ js)))"
  by (induction xs) (auto split: sum.splits)

lemma extract_chain_node_ids:
  "extract_chain n acc =
     (case node_ids (preorder_spec n) of Inl e \<Rightarrow> Inl e | Inr ids \<Rightarrow> Inr (acc @ ids))"
  "extract_children ns acc =
     (case node_ids (concat (map preorder_spec ns)) of Inl e \<Rightarrow> Inl e | Inr ids \<Rightarrow> Inr (acc @ ids))"
proof (induction n acc and ns acc rule: extract_chain_extract_children.induct)
  case (1 u evolved evolution_chain)
  then show ?case
    by (auto split: sum.splits)
next
  case (2 evolution_chain)
  then show ?case by simp
next
  case (3 c cs evolution_chain)
  then show ?case
    by (auto simp: node_ids_append split: sum.splits)
qed


text \<open>
  A segment with a control character that \<open>int\<close> does not strip is no integer: the
  node has no id, and the handler of \<open>get_evolution_chain\<close> returns the empty list.
\<close>

lemma species_id_control_character:
  "species_id (Some [CHR ''x'', CHR ''/'', CHR 0x1F, CHR ''5'', CHR ''/'']) = Inl ValueError"
  by code_simp





subsection \<open>Cache layers\<close>

lemma fold_update_keys:
  "fst ` set (fold (\<lambda>(k, v) d. AList.update (StrKey k) v d) members d)
     \<subseteq> fst ` set d \<union> range StrKey"
proof (induction members arbitrary: d)
  case Nil
  then show ?case by simp
next
  case (Cons m members)
  obtain k v where m: "m = (k, v)" by (cases m)
  have "fst ` set (fold (\<lambda>(k, v) d. AList.update (StrKey k) v d) members (AList.update (StrKey k) v d))
          \<subseteq> fst ` set (AList.update (StrKey k) v d) \<union> range StrKey"
    by (rule Cons.IH)
  then show ?case
    by (auto simp: m dom_update)
qed

lemma json_load_no_integer_key: "map_of (json_load members) (IntKey i) = None"
proof -
  have "fst ` set (json_load members) \<subseteq> range StrKey"
    using fold_update_keys [of members "[]"] by (simp add: json_load_def)
  then have "IntKey i \<notin> fst ` set (json_load members)"
    by auto
  then show ?thesis
    by (simp add: map_of_eq_None_iff)
qed

text \<open>
  Whatever the durable files hold, no lookup by integer id hits the caches of a new
  process: \<open>load_cache\<close> leaves them empty or with string keys only.
\<close>

lemma startup_misses_integer_ids:
  "map_of (pokemon_cache (startup s)) (IntKey i) = None \<and>
   map_of (species_cache (startup s)) (IntKey i) = None"
  by (simp add: startup_def load_cache_def json_load_no_integer_key split: cache_file.splits)

lemma str_1: "str 1 = ''1''"
  by (simp add: str_def digit_chars.simps digit_char_def)

text \<open>
  Claim C2, at the failing input. The cache holds the record of id 1 under the integer
  key, and a lookup hits it. After \<open>save_cache\<close> and the \<open>load_cache\<close> of a new
  process the same record is there, under the string key, and the lookup by the
  integer id misses it: the fetcher goes to the remote source again.
\<close>

theorem flush_then_load_loses_integer_keys:
  "get_pokemon_data offline 1 warm_state = (Some bulbasaur, warm_state) \<and>
   pokemon_cache (startup (save_cache offline warm_state)) = [(StrKey ''1'', bulbasaur)] \<and>
   species_cache (startup (save_cache offline warm_state)) = [(StrKey ''1'', bulbasaur_species)] \<and>
   fst (get_pokemon_data offline 1 (startup (save_cache offline warm_state))) = None \<and>
   requests (snd (get_pokemon_data offline 1 (startup (save_cache offline warm_state)))) = 3"
  by (simp add: get_pokemon_data_def startup_def save_cache_def load_cache_def json_load_def
      json_dump_def json_key_def str_1 warm_state_def empty_state_def offline_def tick_def)

subsection \<open>Failed fetches\<close>

text \<open>
  A failed fetch of a primary or species record changes nothing but the request count,
  and the next call asks the remote source again.
\<close>

lemma get_pokemon_data_failure:
  "get_pokemon_data w pokemon_id s = (None, s') \<Longrightarrow>
   s' = tick s \<and> map_of (pokemon_cache s) (IntKey pokemon_id) = None \<and>
   get_pokemon_data w' pokemon_id s' =
     (case pokemon_doc w' (requests s') pokemon_id of
        None \<Rightarrow> (None, tick s')
      | Some data \<Rightarrow>
          (Some data, tick (s'\<lparr>pokemon_cache := AList.update (IntKey pokemon_id) data (pokemon_cache s')\<rparr>)))"
  by (auto simp: get_pokemon_data_def tick_def split: option.splits)

lemma get_pokemon_species_data_failure:
  "get_pokemon_species_data w pokemon_id s = (None, s') \<Longrightarrow>
   s' = tick s \<and> map_of (species_cache s) (IntKey pokemon_id) = None \<and>
   get_pokemon_species_data w' pokemon_id s' =
     (case species_doc w' (requests s') pokemon_id of
        None \<Rightarrow> (None, tick s')
      | Some data \<Rightarrow>
          (Some data, tick (s'\<lparr>species_cache := AList.update (IntKey pokemon_id) data (species_cache s')\<rparr>)))"
  by (auto simp: get_pokemon_species_data_def tick_def split: option.splits)

lemma get_pokemon_species_data_evolution_cache:
  "get_pokemon_species_data w pokemon_id s = (r, s') \<Longrightarrow> evolution_cache s' = evolution_cache s"
  by (auto simp: get_pokemon_species_data_def tick_def split: option.splits)

lemma fetch_chain_evolution_cache:
  "fetch_chain w species_data s = (r, s') \<Longrightarrow> evolution_cache s' = evolution_cache s"
  by (auto simp: fetch_chain_def tick_def split: option.splits)

text \<open>
  \<open>get_evolution_chain\<close> writes its cache only with a chain it returns; on every
  failure, caught or not, the cache is as before.
\<close>

lemma get_evolution_chain_cache:
  assumes "get_evolution_chain w pokemon_id s = (r, s')"
  shows "evolution_cache s' = evolution_cache s \<or>
         (\<exists>evolution_chain. r = Inr evolution_chain \<and>
            evolution_cache s' = (evolution_cache s)(pokemon_id \<mapsto> evolution_chain))"
  using assms
  by (auto simp: get_evolution_chain_def split: option.splits prod.splits sum.splits error.splits
      dest!: get_pokemon_species_data_evolution_cache fetch_chain_evolution_cache)

lemma fetch_chain_nonempty: "fetch_chain w species_data s = (Inr evolution_chain, s') \<Longrightarrow> evolution_chain \<noteq> []"
proof -
  have "extract_chain root [] \<noteq> Inr []" for root
    by (cases root) (auto simp: extract_chain_node_ids split: sum.splits)
  then show "fetch_chain w species_data s = (Inr evolution_chain, s') \<Longrightarrow> evolution_chain \<noteq> []"
    by (auto simp: fetch_chain_def split: option.splits)
qed

lemma get_evolution_chain_failure:
  assumes "get_evolution_chain w pokemon_id s = (r, s')" and "r = Inr [] \<or> r = Inl e"
  shows "evolution_cache s' = evolution_cache s"
proof (cases "evolution_cache s pokemon_id")
  case (Some cached)
  with assms show ?thesis
    by (simp add: get_evolution_chain_def)
next
  case None
  obtain sp s1 where Pair: "get_pokemon_species_data w pokemon_id s = (sp, s1)"
    by (cases "get_pokemon_species_data w pokemon_id s")
  note ec1 = get_pokemon_species_data_evolution_cache [OF Pair]
  show ?thesis
  proof (cases sp)
    case None
    with assms Pair ec1 \<open>evolution_cache s pokemon_id = None\<close> show ?thesis
      by (simp add: get_evolution_chain_def)
  next
    case (Some species_data)
    obtain r2 s2 where fc: "fetch_chain w species_data s1 = (r2, s2)"
      by (cases "fetch_chain w species_data s1")
    note ec2 = fetch_chain_evolution_cache [OF fc]
    show ?thesis
    proof (cases r2)
      case (Inl e2)
      with assms Pair Some fc ec1 ec2 None show ?thesis
        by (auto simp: get_evolution_chain_def split: error.splits)
    next
      case (Inr evolution_chain)
      with fc have "evolution_chain \<noteq> []"
        by (auto dest: fetch_chain_nonempty)
      with assms Pair Some fc Inr None show ?thesis
        by (auto simp: get_evolution_chain_def)
    qed
  qed
qed

text \<open>
  Claim C10, at the failing input. The species record is fetched, the chain document is
  fetched, and its root names the species by a URL that has no slash: the subscript
  \<open>[-2]\<close> raises IndexError, which the handler does not catch. The exception leaves
  \<open>get_evolution_chain\<close> instead of the empty list (the cache is not written).
\<close>

theorem get_evolution_chain_raises_index_error:
  "fst (get_evolution_chain slashless_world 1 empty_state) = Inl IndexError \<and>
   evolution_cache (snd (get_evolution_chain slashless_world 1 empty_state)) 1 = None"
  by (simp add: get_evolution_chain_def get_pokemon_species_data_def fetch_chain_def
      species_id_def slashless_world_def offline_def empty_state_def bulbasaur_species_def tick_def)

subsection \<open>Manual selection\<close>



lemma index_append:
  "index (xs @ ys) x = (case index xs x of Some i \<Rightarrow> Some i | None \<Rightarrow> map_option (\<lambda>i. length xs + i) (index ys x))"
  by (induction xs) (cases "index ys x"; auto split: option.splits)+

lemma index_replicate: "y \<noteq> x \<Longrightarrow> index (replicate n y) x = None"
  by (induction n) auto

lemma kanto_index:
  "index (map capitalize ([''bulbasaur'', ''ivysaur''] @ replicate 147 ''unnamed'' @ [''mewtwo'']))
     ''Bulbasaur'' = Some 0"
  "index (map capitalize ([''bulbasaur'', ''ivysaur''] @ replicate 147 ''unnamed'' @ [''mewtwo'']))
     ''Ivysaur'' = Some 1"
  "index (map capitalize ([''bulbasaur'', ''ivysaur''] @ replicate 147 ''unnamed'' @ [''mewtwo'']))
     ''Mewtwo'' = Some 149"
  by (simp_all add: index_append index_replicate capitalize_def upper_def lower_def)



subsection \<open>What each operation does to the cache of primary records\<close>

lemma served_cong: "pokemon_cache s' = pokemon_cache s \<Longrightarrow> served w s' = served w s"
  by (simp add: served_def)

lemma get_pokemon_data_served:
  assumes "get_pokemon_data w i s = (r, s')"
  shows "served w s' \<subseteq> served w s" and "r = Some d \<Longrightarrow> d \<in> served w s"
  using assms
  by (auto simp: get_pokemon_data_def served_def tick_def update_conv' split: option.splits if_splits)

lemma get_pokemon_species_data_pokemon_cache:
  "get_pokemon_species_data w i s = (r, s') \<Longrightarrow> pokemon_cache s' = pokemon_cache s"
  by (auto simp: get_pokemon_species_data_def tick_def split: option.splits)

lemma fetch_chain_pokemon_cache:
  "fetch_chain w sp s = (r, s') \<Longrightarrow> pokemon_cache s' = pokemon_cache s"
  by (auto simp: fetch_chain_def tick_def split: option.splits)

lemma get_evolution_chain_pokemon_cache:
  "get_evolution_chain w i s = (r, s') \<Longrightarrow> pokemon_cache s' = pokemon_cache s"
  by (auto simp: get_evolution_chain_def split: option.splits prod.splits sum.splits error.splits
      dest!: get_pokemon_species_data_pokemon_cache fetch_chain_pokemon_cache)

lemma is_fully_evolved_pokemon_cache:
  "is_fully_evolved w i s = (r, s') \<Longrightarrow> pokemon_cache s' = pokemon_cache s"
  by (auto simp: is_fully_evolved_def split: prod.splits sum.splits if_splits
      dest!: get_evolution_chain_pokemon_cache)

lemma is_legendary_pokemon_cache:
  "is_legendary w i s = (r, s') \<Longrightarrow> pokemon_cache s' = pokemon_cache s"
  by (auto simp: is_legendary_def split: prod.splits option.splits
      dest!: get_pokemon_species_data_pokemon_cache)

lemma get_all_pokemon_pokemon_cache:
  "get_all_pokemon w s = (r, s') \<Longrightarrow> pokemon_cache s' = pokemon_cache s"
  by (auto simp: get_all_pokemon_def tick_def split: option.splits)

text \<open>A round of the random fill: what it accepts, and what it leaves in the cache.\<close>

lemma check_candidate_accepts:
  assumes "check_candidate w i et ef el s = (r, s')"
  shows "served w s' \<subseteq> served w s"
    and "r = Inr (Some d) \<Longrightarrow> d \<in> served w s"
    and "r = Inr (Some d) \<Longrightarrow> et = Some T \<Longrightarrow> set (ptypes d) \<inter> T = {}"
proof -
  obtain r1 s1 where g: "get_pokemon_data w i s = (r1, s1)"
    by (cases "get_pokemon_data w i s")
  note g1 = get_pokemon_data_served [OF g]
  obtain r2 s2 where fe: "(if ef then is_fully_evolved w i s1 else (Inr True, s1)) = (r2, s2)"
    by (cases "if ef then is_fully_evolved w i s1 else (Inr True, s1)")
  then have c2: "pokemon_cache s2 = pokemon_cache s1"
    by (auto split: if_splits dest: is_fully_evolved_pokemon_cache)
  obtain r3 s3 where il: "(if el then is_legendary w i s2 else (False, s2)) = (r3, s3)"
    by (cases "if el then is_legendary w i s2 else (False, s2)")
  then have c3: "pokemon_cache s3 = pokemon_cache s2"
    by (auto split: if_splits dest: is_legendary_pokemon_cache)
  have s': "s' = s1 \<or> s' = s2 \<or> s' = s3"
    using assms g fe il
    by (auto simp: check_candidate_def split: option.splits sum.splits bool.splits if_splits)
  then have "pokemon_cache s' = pokemon_cache s1"
    using c2 c3 by auto
  then have "served w s' = served w s1"
    by (rule served_cong)
  with g1(1) show "served w s' \<subseteq> served w s"
    by simp
  show "d \<in> served w s" if "r = Inr (Some d)"
    using that assms g fe il g1(2) [of d]
    by (auto simp: check_candidate_def split: option.splits sum.splits bool.splits if_splits)
  show "set (ptypes d) \<inter> T = {}" if "r = Inr (Some d)" "et = Some T"
    using that assms g fe il
    by (auto simp: check_candidate_def split: option.splits sum.splits bool.splits if_splits)
qed

lemma try_candidates_accepts:
  assumes "try_candidates w ids et ef el s = (r, s')"
  shows "served w s' \<subseteq> served w s
         \<and> (\<forall>d. r = Inr (Some d) \<longrightarrow> d \<in> served w s
                \<and> (\<forall>T. et = Some T \<longrightarrow> set (ptypes d) \<inter> T = {}))"
  using assms
proof (induction ids arbitrary: s)
  case Nil
  then show ?case by auto
next
  case (Cons i ids)
  obtain r1 s1 where c: "check_candidate w i et ef el s = (r1, s1)"
    by (cases "check_candidate w i et ef el s")
  note c1 = check_candidate_accepts [OF c]
  show ?case
  proof (cases "r1 = Inr None")
    case True
    with Cons.prems c have "try_candidates w ids et ef el s1 = (r, s')"
      by simp
    from Cons.IH [OF this] c1(1) show ?thesis
      by blast
  next
    case False
    with Cons.prems c have "r = r1" "s' = s1"
      by (auto split: sum.splits option.splits)
    with c1 show ?thesis
      by blast
  qed
qed

lemma get_random_pokemon_accepts:
  assumes "get_random_pokemon w gens et ef el s = (r, s')"
  shows "served w s' \<subseteq> served w s
         \<and> (\<forall>d. r = Inr (Some d) \<longrightarrow> d \<in> served w s
                \<and> (\<forall>T. et = Some T \<longrightarrow> set (ptypes d) \<inter> T = {}))"
proof (cases "collect_ids gens []")
  case (Inl e)
  with assms show ?thesis
    by (auto simp: get_random_pokemon_def)
next
  case (Inr ids)
  show ?thesis
  proof (cases "ids = []")
    case True
    with assms Inr show ?thesis
      by (auto simp: get_random_pokemon_def)
  next
    case False
    with assms Inr
    have "try_candidates w (shuffle w (shuffles s) ids) et ef el (s\<lparr>shuffles := Suc (shuffles s)\<rparr>)
            = (r, s')"
      by (simp add: get_random_pokemon_def)
    from try_candidates_accepts [OF this]
    show ?thesis
      by (simp add: served_cong [of "s\<lparr>shuffles := Suc (shuffles s)\<rparr>" s])
  qed
qed

subsection \<open>The fill loop\<close>

lemma fill_loop_terminates: "\<exists>r. fill_loop w gens f sel T s = Some r"
proof (induction "6 - length sel" arbitrary: sel T s)
  case 0
  then have "\<not> length sel < 6" by simp
  then show ?case
    by (subst fill_loop.simps) simp
next
  case (Suc n)
  then have lt: "length sel < 6" by simp
  obtain r1 s1 where g: "get_random_pokemon w gens (if type_filter_var f then Some T else None)
      (evolution_filter_var f) (legendary_filter_var f) s = (r1, s1)"
    by (cases "get_random_pokemon w gens (if type_filter_var f then Some T else None)
      (evolution_filter_var f) (legendary_filter_var f) s")
  show ?case
  proof (cases r1)
    case (Inl e)
    with lt g show ?thesis
      by (subst fill_loop.simps) simp
  next
    case (Inr found)
    show ?thesis
    proof (cases found)
      case None
      with lt g Inr show ?thesis
        by (subst fill_loop.simps) simp
    next
      case (Some d)
      from Suc.hyps(2) have "n = 6 - length (sel @ [d])" by simp
      from Suc.hyps(1) [OF this]
      obtain r where "fill_loop w gens f (sel @ [d])
          (if type_filter_var f then T \<union> set (ptypes d) else T) s1 = Some r"
        by blast
      with lt g Inr Some show ?thesis
        by (subst fill_loop.simps) simp
    qed
  qed
qed

lemma fill_loop_stops:
  assumes "length sel < 6"
    and "fst (get_random_pokemon w gens (if type_filter_var f then Some T else None)
           (evolution_filter_var f) (legendary_filter_var f) s) = Inr None"
  shows "fill_loop w gens f sel T s =
           Some (Inr sel, warn NoMoreFound
             (snd (get_random_pokemon w gens (if type_filter_var f then Some T else None)
                (evolution_filter_var f) (legendary_filter_var f) s)))"
  using assms
  by (subst fill_loop.simps) (auto split: prod.splits)

lemma fill_loop_result:
  assumes "fill_loop w gens f sel T s = Some (Inr roster, s')"
  shows "take (length sel) roster = sel \<and> length sel \<le> length roster
         \<and> set roster \<subseteq> set sel \<union> served w s
         \<and> (type_filter_var f \<longrightarrow> (\<forall>r\<in>set sel. set (ptypes r) \<subseteq> T) \<longrightarrow>
              (\<forall>i j. i < j \<and> j < length roster \<and> length sel \<le> j \<longrightarrow>
                 set (ptypes (roster ! i)) \<inter> set (ptypes (roster ! j)) = {}))"
  using assms
proof (induction "6 - length sel" arbitrary: sel T s)
  case 0
  then have "\<not> length sel < 6" by simp
  with 0(2) have "roster = sel"
    by (subst (asm) fill_loop.simps) simp
  then show ?case by auto
next
  case (Suc n)
  then have lt: "length sel < 6" by simp
  let ?et = "if type_filter_var f then Some T else None"
  obtain r1 s1 where g: "get_random_pokemon w gens ?et
      (evolution_filter_var f) (legendary_filter_var f) s = (r1, s1)"
    by (cases "get_random_pokemon w gens ?et (evolution_filter_var f) (legendary_filter_var f) s")
  note acc = get_random_pokemon_accepts [OF g]
  from Suc.prems lt g have unfolded:
    "(case r1 of
        Inl e \<Rightarrow> Some (Inl e, s1)
      | Inr None \<Rightarrow> Some (Inr sel, warn NoMoreFound s1)
      | Inr (Some d) \<Rightarrow>
          fill_loop w gens f (sel @ [d]) (if type_filter_var f then T \<union> set (ptypes d) else T) s1)
     = Some (Inr roster, s')"
    by (subst (asm) fill_loop.simps) simp
  show ?case
  proof (cases r1)
    case (Inl e)
    with unfolded show ?thesis by simp
  next
    case (Inr found)
    show ?thesis
    proof (cases found)
      case None
      with unfolded Inr have "roster = sel" by simp
      then show ?thesis by auto
    next
      case (Some d)
      let ?T' = "if type_filter_var f then T \<union> set (ptypes d) else T"
      from unfolded Inr Some
      have rec: "fill_loop w gens f (sel @ [d]) ?T' s1 = Some (Inr roster, s')"
        by simp
      from Suc.hyps(2) have n: "n = 6 - length (sel @ [d])" by simp
      note IH = Suc.hyps(1) [OF n rec]
      from acc Inr Some have d_served: "d \<in> served w s" and sub: "served w s1 \<subseteq> served w s"
        by auto
      from IH have tk: "take (Suc (length sel)) roster = sel @ [d]"
        and len: "Suc (length sel) \<le> length roster"
        by simp_all
      have tk_sel: "take (length sel) roster = sel"
      proof -
        have "take (length sel) (take (Suc (length sel)) roster) = take (length sel) (sel @ [d])"
          by (simp only: tk)
        then show ?thesis by (simp add: min_def)
      qed
      have nth_d: "roster ! length sel = d"
      proof -
        have "take (Suc (length sel)) roster ! length sel = (sel @ [d]) ! length sel"
          by (simp only: tk)
        then show ?thesis by simp
      qed
      have nth_sel: "roster ! i = sel ! i" if "i < length sel" for i
      proof -
        have "take (length sel) roster ! i = sel ! i"
          by (simp only: tk_sel)
        with that show ?thesis by simp
      qed
      have set_sub: "set roster \<subseteq> set sel \<union> served w s"
        using IH d_served sub by auto
      have types: "\<forall>i j. i < j \<and> j < length roster \<and> length sel \<le> j \<longrightarrow>
                 set (ptypes (roster ! i)) \<inter> set (ptypes (roster ! j)) = {}"
        if tf: "type_filter_var f" and cover: "\<forall>r\<in>set sel. set (ptypes r) \<subseteq> T"
      proof (intro allI impI)
        fix i j
        assume ij: "i < j \<and> j < length roster \<and> length sel \<le> j"
        from tf cover have cover': "\<forall>r\<in>set (sel @ [d]). set (ptypes r) \<subseteq> ?T'"
          by auto
        show "set (ptypes (roster ! i)) \<inter> set (ptypes (roster ! j)) = {}"
        proof (cases "j = length sel")
          case True
          with ij have "i < length sel" by simp
          then have "roster ! i \<in> set sel"
            by (simp add: nth_sel)
          with cover have "set (ptypes (roster ! i)) \<subseteq> T" by blast
          moreover from acc Inr Some tf have "set (ptypes d) \<inter> T = {}"
            by auto
          ultimately show ?thesis
            using True nth_d by auto
        next
          case False
          with ij have "i < j \<and> j < length roster \<and> length (sel @ [d]) \<le> j"
            by simp
          with IH tf cover' show ?thesis
            by blast
        qed
      qed
      from tk_sel len set_sub types show ?thesis
        by simp
    qed
  qed
qed

subsection \<open>Prefetch and manual selection\<close>

lemma fetch_single_pokemon_served: "served w (fetch_single_pokemon w i s) \<subseteq> served w s"
  by (auto simp: fetch_single_pokemon_def served_def tick_def update_conv'
      split: option.splits if_splits)

lemma fetch_single_species_pokemon_cache:
  "pokemon_cache (fetch_single_species w i s) = pokemon_cache s"
  by (auto simp: fetch_single_species_def tick_def split: option.splits)

lemma prefetch_pokemon_data_served: "served w (prefetch_pokemon_data w ids s) \<subseteq> served w s"
  unfolding prefetch_pokemon_data_def
proof (induction ids arbitrary: s)
  case Nil
  then show ?case by simp
next
  case (Cons i ids)
  have "served w (fold (fetch_single_pokemon w) ids (fetch_single_pokemon w i s))
          \<subseteq> served w (fetch_single_pokemon w i s)"
    by (rule Cons.IH)
  with fetch_single_pokemon_served [of w i s] show ?case
    by auto
qed

lemma prefetch_species_data_pokemon_cache:
  "pokemon_cache (prefetch_species_data w ids s) = pokemon_cache s"
  unfolding prefetch_species_data_def
  by (induction ids arbitrary: s) (simp_all add: fetch_single_species_pokemon_cache)

lemma prefetched_served: "served w (prefetched w ids s) \<subseteq> served w s"
proof -
  have "pokemon_cache (prefetched w ids s) = pokemon_cache (prefetch_pokemon_data w ids s)"
    by (simp add: prefetched_def prefetch_species_data_pokemon_cache)
  then have "served w (prefetched w ids s) = served w (prefetch_pokemon_data w ids s)"
    by (rule served_cong)
  with prefetch_pokemon_data_served [of w ids s] show ?thesis
    by simp
qed

lemma manual_pick_picked_from:
  assumes "picked_from w f s0 acc"
  shows "picked_from w f s0 (manual_pick w f name acc)"
proof -
  obtain sel T s where acc: "acc = (sel, T, s)"
    by (cases acc)
  from assms acc have sel: "set sel \<subseteq> served w s0" and st: "served w s \<subseteq> served w s0"
    and ty: "type_filter_var f \<Longrightarrow> r \<in> set sel \<Longrightarrow> set (ptypes r) \<subseteq> T" for r
    by (auto simp: picked_from_def)
  have keep: "picked_from w f s0 (sel, T, s')" if "served w s' \<subseteq> served w s0" for s'
    using that sel ty by (auto simp: picked_from_def)
  obtain names s1 where n: "get_all_pokemon w s = (names, s1)"
    by (cases "get_all_pokemon w s")
  from get_all_pokemon_pokemon_cache [OF n] have "served w s1 = served w s"
    by (rule served_cong)
  with st have c1: "served w s1 \<subseteq> served w s0"
    by simp
  show ?thesis
  proof (cases "name = []")
    case True
    with assms acc show ?thesis
      by (simp add: manual_pick_def)
  next
    case ne: False
    show ?thesis
    proof (cases "index names name")
      case None
      with acc n ne have "manual_pick w f name acc = (sel, T, s1)"
        by (simp add: manual_pick_def)
      with keep [OF c1] show ?thesis
        by simp
    next
      case (Some i)
      obtain r2 s2 where g: "get_pokemon_data w (int i + 1) s1 = (r2, s2)"
        by (cases "get_pokemon_data w (int i + 1) s1")
      note g2 = get_pokemon_data_served [OF g]
      from g2(1) c1 have c2: "served w s2 \<subseteq> served w s0"
        by blast
      show ?thesis
      proof (cases r2)
        case None
        with acc n ne Some g have "manual_pick w f name acc = (sel, T, s2)"
          by (simp add: manual_pick_def)
        with keep [OF c2] show ?thesis
          by simp
      next
        case d: (Some d)
        from g2(2) [OF d] c1 have d_served: "d \<in> served w s0"
          by blast
        obtain r3 s3 where l: "(if legendary_filter_var f then is_legendary w (int i + 1) s2
                                else (False, s2)) = (r3, s3)"
          by (cases "if legendary_filter_var f then is_legendary w (int i + 1) s2 else (False, s2)")
        then have "pokemon_cache s3 = pokemon_cache s2"
          by (auto split: if_splits dest: is_legendary_pokemon_cache)
        then have e3: "served w s3 = served w s2"
          by (rule served_cong)
        with c2 have c3: "served w s3 \<subseteq> served w s0"
          by simp
        show ?thesis
        proof (cases r3)
          case True
          have "served w (warn LegendarySkipped s3) = served w s3"
            by (simp add: served_def warn_def)
          with c3 have cw: "served w (warn LegendarySkipped s3) \<subseteq> served w s0"
            by simp
          from True acc n ne Some g d l
          have "manual_pick w f name acc = (sel, T, warn LegendarySkipped s3)"
            by (simp add: manual_pick_def)
          with keep [OF cw] show ?thesis
            by simp
        next
          case False
          with acc n ne Some g d l
          have res: "manual_pick w f name acc =
                  (sel @ [d], if type_filter_var f then T \<union> set (ptypes d) else T, s3)"
            by (simp add: manual_pick_def)
          have "picked_from w f s0
                  (sel @ [d], if type_filter_var f then T \<union> set (ptypes d) else T, s3)"
            unfolding picked_from_def using sel d_served c3 ty
            by auto
          with res show ?thesis
            by simp
        qed
      qed
    qed
  qed
qed

lemma fold_manual_pick_picked_from:
  "picked_from w f s0 acc \<Longrightarrow> picked_from w f s0 (fold (manual_pick w f) names acc)"
  by (induction names arbitrary: acc) (simp_all add: manual_pick_picked_from)

lemma manual_picks_picked_from: "picked_from w f s (manual_picks w f names s)"
  unfolding manual_picks_def
  by (rule fold_manual_pick_picked_from) (simp add: picked_from_def)

subsection \<open>The roster\<close>

lemma generate_pokemon_team_roster:
  assumes gen: "map_option fst (generate_pokemon_team w gens names f s) = Some (Inr roster)"
    and ids: "collect_ids gens [] = Inr ids"
    and man: "fst (manual_picks w f names (prefetched w ids s)) = manual"
  shows "take (length manual) roster = manual"
    and "length manual \<le> length roster"
    and "set roster \<subseteq> served w s"
    and "type_filter_var f \<Longrightarrow>
         \<forall>i j. i < j \<and> j < length roster \<and> length manual \<le> j \<longrightarrow>
           set (ptypes (roster ! i)) \<inter> set (ptypes (roster ! j)) = {}"
proof -
  obtain T s1 where mp: "manual_picks w f names (prefetched w ids s) = (manual, T, s1)"
    using man by (cases "manual_picks w f names (prefetched w ids s)") auto
  from gen ids mp obtain s' where fl: "fill_loop w gens f manual T s1 = Some (Inr roster, s')"
    by (auto simp: generate_pokemon_team_def)
  note res = fill_loop_result [OF fl]
  from manual_picks_picked_from [of w f "prefetched w ids s" names] mp
  have pf: "set manual \<subseteq> served w (prefetched w ids s)"
    "served w s1 \<subseteq> served w (prefetched w ids s)"
    "type_filter_var f \<Longrightarrow> \<forall>r\<in>set manual. set (ptypes r) \<subseteq> T"
    by (auto simp: picked_from_def)
  from res show "take (length manual) roster = manual" and "length manual \<le> length roster"
    by simp_all
  from res pf(1,2) prefetched_served [of w ids s] show "set roster \<subseteq> served w s"
    by blast
  show "\<forall>i j. i < j \<and> j < length roster \<and> length manual \<le> j \<longrightarrow>
           set (ptypes (roster ! i)) \<inter> set (ptypes (roster ! j)) = {}"
    if "type_filter_var f"
    using res pf(3) [OF that] that by blast
qed

text \<open>
  Claim C3, as amended. With the type filter on, an entry that the random fill added
  shares no type with any entry before it in the roster (so with no other entry that
  the random fill added, and with no manual pick); the manual picks come first in the
  roster, and nothing is said of two manual picks.
\<close>

theorem random_fill_types_disjoint:
  assumes "map_option fst (generate_pokemon_team w gens names f s) = Some (Inr roster)"
    and "type_filter_var f"
    and "collect_ids gens [] = Inr ids"
    and "fst (manual_picks w f names (prefetched w ids s)) = manual"
  shows "take (length manual) roster = manual \<and>
         (\<forall>i j. i < j \<and> j < length roster \<and> length manual \<le> j \<longrightarrow>
            set (ptypes (roster ! i)) \<inter> set (ptypes (roster ! j)) = {})"
  using generate_pokemon_team_roster(1) [OF assms(1,3,4)]
    generate_pokemon_team_roster(4) [OF assms(1,3,4,2)]
  by simp

text \<open>
  Claim C1, as amended. With the type filter on, when every record that the cache holds
  or the source serves has a type, and records of one id have the same types, an entry
  that the random fill added has the id of no entry before it in the roster; nothing is
  said of two manual picks, nor of a roster made with the type filter off.
\<close>

theorem random_fill_ids_fresh:
  assumes gen: "map_option fst (generate_pokemon_team w gens names f s) = Some (Inr roster)"
    and tf: "type_filter_var f"
    and nonempty: "\<forall>r\<in>served w s. ptypes r \<noteq> []"
    and same: "\<forall>r\<in>served w s. \<forall>r'\<in>served w s. pid r = pid r' \<longrightarrow> ptypes r = ptypes r'"
    and ids: "collect_ids gens [] = Inr ids"
    and man: "fst (manual_picks w f names (prefetched w ids s)) = manual"
  shows "take (length manual) roster = manual \<and>
         (\<forall>i j. i < j \<and> j < length roster \<and> length manual \<le> j \<longrightarrow>
            pid (roster ! i) \<noteq> pid (roster ! j))"
proof (intro conjI allI impI)
  show "take (length manual) roster = manual"
    by (rule generate_pokemon_team_roster(1) [OF gen ids man])
next
  fix i j
  assume ij: "i < j \<and> j < length roster \<and> length manual \<le> j"
  note sub = generate_pokemon_team_roster(3) [OF gen ids man]
  from ij have "roster ! i \<in> set roster" "roster ! j \<in> set roster"
    by simp_all
  with sub have si: "roster ! i \<in> served w s" and sj: "roster ! j \<in> served w s"
    by blast+
  from generate_pokemon_team_roster(4) [OF gen ids man tf] ij
  have disj: "set (ptypes (roster ! i)) \<inter> set (ptypes (roster ! j)) = {}"
    by blast
  show "pid (roster ! i) \<noteq> pid (roster ! j)"
  proof
    assume "pid (roster ! i) = pid (roster ! j)"
    with same si sj have "ptypes (roster ! i) = ptypes (roster ! j)"
      by blast
    with disj have "set (ptypes (roster ! j)) = {}"
      by simp
    with nonempty sj show False
      by simp
  qed
qed

text \<open>
  Claim C7. The random fill ends for every candidate set, filter setting and state, and
  so does the whole cycle. A round that returns no result stops the loop with the
  roster as it is and the warning that no further entity was found; a candidate list
  of a single id whose record is rejected gives such a round; and a cycle without
  manual picks whose first round returns no result ends with a roster of size 0.
\<close>

theorem fill_terminates_partial:
  "(\<exists>r. fill_loop w gens f sel T s = Some r) \<and>
   (\<exists>r. generate_pokemon_team w gens names f s = Some r) \<and>
   (length sel < 6 \<and>
    fst (get_random_pokemon w gens (if type_filter_var f then Some T else None)
           (evolution_filter_var f) (legendary_filter_var f) s) = Inr None \<longrightarrow>
    fill_loop w gens f sel T s =
      Some (Inr sel, warn NoMoreFound
        (snd (get_random_pokemon w gens (if type_filter_var f then Some T else None)
           (evolution_filter_var f) (legendary_filter_var f) s)))) \<and>
   (fst (check_candidate w i et ef el s) = Inr None \<longrightarrow>
    fst (try_candidates w [i] et ef el s) = Inr None) \<and>
   (collect_ids gens [] = Inr ids \<and>
    fst (get_random_pokemon w gens (if type_filter_var f then Some {} else None)
           (evolution_filter_var f) (legendary_filter_var f) (prefetched w ids s)) = Inr None \<longrightarrow>
    map_option fst (generate_pokemon_team w gens [] f s) = Some (Inr []))"
proof (intro conjI impI)
  show "\<exists>r. fill_loop w gens f sel T s = Some r"
    by (rule fill_loop_terminates)
  show "\<exists>r. generate_pokemon_team w gens names f s = Some r"
  proof (cases "collect_ids gens []")
    case (Inl e)
    then show ?thesis
      by (simp add: generate_pokemon_team_def)
  next
    case (Inr pokemon_ids)
    obtain manual T0 s1 where "manual_picks w f names (prefetched w pokemon_ids s) = (manual, T0, s1)"
      by (cases "manual_picks w f names (prefetched w pokemon_ids s)")
    with Inr fill_loop_terminates [of w gens f manual T0 s1] show ?thesis
      by (simp add: generate_pokemon_team_def)
  qed
  show "fill_loop w gens f sel T s =
      Some (Inr sel, warn NoMoreFound
        (snd (get_random_pokemon w gens (if type_filter_var f then Some T else None)
           (evolution_filter_var f) (legendary_filter_var f) s)))"
    if "length sel < 6 \<and>
        fst (get_random_pokemon w gens (if type_filter_var f then Some T else None)
           (evolution_filter_var f) (legendary_filter_var f) s) = Inr None"
    using that by (simp add: fill_loop_stops)
  show "fst (try_candidates w [i] et ef el s) = Inr None"
    if "fst (check_candidate w i et ef el s) = Inr None"
    using that by (cases "check_candidate w i et ef el s") simp
  show "map_option fst (generate_pokemon_team w gens [] f s) = Some (Inr [])"
    if "collect_ids gens [] = Inr ids \<and>
        fst (get_random_pokemon w gens (if type_filter_var f then Some {} else None)
           (evolution_filter_var f) (legendary_filter_var f) (prefetched w ids s)) = Inr None"
    using that by (simp add: generate_pokemon_team_def manual_picks_def fill_loop_stops)
qed

subsection \<open>Runs on a steady world\<close>

lemma get_pokemon_data_steady:
  assumes "steady w" and "get_pokemon_data w i s = (r, s')"
  shows "r = held_pokemon w s i" and "held_pokemon w s' = held_pokemon w s"
    and "held_species w s' = held_species w s"
proof -
  from assms(1) have doc: "pokemon_doc w (requests s) = pokemon_doc w 0"
    by (simp add: steady_def)
  from assms(2) doc show "r = held_pokemon w s i"
    by (auto simp: get_pokemon_data_def held_pokemon_def split: option.splits)
  from assms(2) doc show "held_pokemon w s' = held_pokemon w s"
    by (auto simp: get_pokemon_data_def held_pokemon_def tick_def update_conv' fun_eq_iff
        split: option.splits if_splits)
  from assms(2) show "held_species w s' = held_species w s"
    by (auto simp: get_pokemon_data_def held_species_def tick_def fun_eq_iff split: option.splits)
qed

lemma get_pokemon_species_data_steady:
  assumes "steady w" and "get_pokemon_species_data w i s = (r, s')"
  shows "r = held_species w s i" and "held_pokemon w s' = held_pokemon w s"
    and "held_species w s' = held_species w s"
proof -
  from assms(1) have doc: "species_doc w (requests s) = species_doc w 0"
    by (simp add: steady_def)
  from assms(2) doc show "r = held_species w s i"
    by (auto simp: get_pokemon_species_data_def held_species_def split: option.splits)
  from assms(2) doc show "held_species w s' = held_species w s"
    by (auto simp: get_pokemon_species_data_def held_species_def tick_def update_conv' fun_eq_iff
        split: option.splits if_splits)
  from assms(2) show "held_pokemon w s' = held_pokemon w s"
    by (auto simp: get_pokemon_species_data_def held_pokemon_def tick_def fun_eq_iff
        split: option.splits)
qed

lemma is_legendary_steady:
  assumes "steady w" and "is_legendary w i s = (r, s')"
  shows "r = notable (held_species w s i)" and "held_pokemon w s' = held_pokemon w s"
    and "held_species w s' = held_species w s"
proof -
  obtain r1 s1 where g: "get_pokemon_species_data w i s = (r1, s1)"
    by (cases "get_pokemon_species_data w i s")
  note g1 = get_pokemon_species_data_steady [OF assms(1) g]
  from assms(2) g g1(1) show "r = notable (held_species w s i)"
    by (cases r1) (auto simp: is_legendary_def notable_def split: option.splits)
  from assms(2) g have "s' = s1"
    by (cases r1) (auto simp: is_legendary_def)
  with g1 show "held_pokemon w s' = held_pokemon w s" and "held_species w s' = held_species w s"
    by simp_all
qed

lemma check_candidate_steady:
  assumes "steady w" and "check_candidate w i et False el s = (r, s')"
  shows "r = Inr (passes (held_pokemon w s) (held_species w s) et el i)"
    and "held_pokemon w s' = held_pokemon w s" and "held_species w s' = held_species w s"
proof -
  obtain r1 s1 where g: "get_pokemon_data w i s = (r1, s1)"
    by (cases "get_pokemon_data w i s")
  note g1 = get_pokemon_data_steady [OF assms(1) g]
  obtain r3 s3 where l: "is_legendary w i s1 = (r3, s3)"
    by (cases "is_legendary w i s1")
  note l1 = is_legendary_steady [OF assms(1) l]
  have "r = Inr (passes (held_pokemon w s) (held_species w s) et el i)
        \<and> held_pokemon w s' = held_pokemon w s \<and> held_species w s' = held_species w s"
  proof (cases r1)
    case None
    with assms(2) g g1 show ?thesis
      by (auto simp: check_candidate_def passes_def)
  next
    case (Some d)
    show ?thesis
    proof (cases el)
      case True
      with assms(2) g Some l l1 g1 show ?thesis
        by (cases r3; cases et) (auto simp: check_candidate_def passes_def split: if_splits)
    next
      case False
      with assms(2) g Some g1 show ?thesis
        by (cases et) (auto simp: check_candidate_def passes_def split: if_splits)
    qed
  qed
  then show "r = Inr (passes (held_pokemon w s) (held_species w s) et el i)"
    and "held_pokemon w s' = held_pokemon w s" and "held_species w s' = held_species w s"
    by simp_all
qed

lemma try_candidates_steady:
  assumes "steady w" and "try_candidates w ids et False el s = (r, s')"
  shows "r = Inr (first_passing (held_pokemon w s) (held_species w s) et el ids)
         \<and> held_pokemon w s' = held_pokemon w s \<and> held_species w s' = held_species w s"
  using assms(2)
proof (induction ids arbitrary: s)
  case Nil
  then show ?case by auto
next
  case (Cons i ids)
  obtain r1 s1 where c: "check_candidate w i et False el s = (r1, s1)"
    by (cases "check_candidate w i et False el s")
  note c1 = check_candidate_steady [OF assms(1) c]
  show ?case
  proof (cases "passes (held_pokemon w s) (held_species w s) et el i")
    case None
    with Cons.prems c c1 have "try_candidates w ids et False el s1 = (r, s')"
      by simp
    from Cons.IH [OF this] c1 None show ?thesis
      by simp
  next
    case (Some d)
    with Cons.prems c c1 show ?thesis
      by auto
  qed
qed

lemma get_random_pokemon_steady:
  assumes "steady w" and "collect_ids gens [] = Inr ids"
    and "get_random_pokemon w gens et False el s = (r, s')"
  shows "r = Inr (first_passing (held_pokemon w s) (held_species w s) et el ids)
         \<and> held_pokemon w s' = held_pokemon w s \<and> held_species w s' = held_species w s"
proof (cases "ids = []")
  case True
  with assms show ?thesis
    by (auto simp: get_random_pokemon_def)
next
  case False
  let ?s0 = "s\<lparr>shuffles := Suc (shuffles s)\<rparr>"
  from assms(1) have "shuffle w (shuffles s) ids = ids"
    by (simp add: steady_def)
  with False assms have "try_candidates w ids et False el ?s0 = (r, s')"
    by (simp add: get_random_pokemon_def)
  moreover have "held_pokemon w ?s0 = held_pokemon w s" "held_species w ?s0 = held_species w s"
    by (simp_all add: held_pokemon_def held_species_def fun_eq_iff)
  ultimately show ?thesis
    using try_candidates_steady [OF assms(1), of ids et el ?s0 r s'] by simp
qed

lemma fill_loop_steady:
  assumes "steady w" and "\<not> evolution_filter_var f"
  shows "map_option fst (fill_loop w gens f sel T s)
           = Some (fill_of (held_pokemon w s) (held_species w s) gens f (6 - length sel) sel T)"
proof (induction "6 - length sel" arbitrary: sel T s)
  case 0
  then have "\<not> length sel < 6" by simp
  with 0 show ?case
    by (subst fill_loop.simps) simp
next
  case (Suc n)
  then have lt: "length sel < 6" by simp
  let ?et = "if type_filter_var f then Some T else None"
  obtain r1 s1 where g: "get_random_pokemon w gens ?et False (legendary_filter_var f) s = (r1, s1)"
    by (cases "get_random_pokemon w gens ?et False (legendary_filter_var f) s")
  show ?case
  proof (cases "collect_ids gens []")
    case (Inl e)
    with g have "r1 = Inl e"
      by (simp add: get_random_pokemon_def)
    with lt g assms(2) Inl Suc.hyps(2) [symmetric] show ?thesis
      by (subst fill_loop.simps) simp
  next
    case (Inr ids)
    note st = get_random_pokemon_steady [OF assms(1) Inr g]
    show ?thesis
    proof (cases "first_passing (held_pokemon w s) (held_species w s) ?et (legendary_filter_var f) ids")
      case None
      with lt g assms(2) Inr st Suc.hyps(2) [symmetric] show ?thesis
        by (subst fill_loop.simps) simp
    next
      case (Some d)
      let ?T' = "if type_filter_var f then T \<union> set (ptypes d) else T"
      from Suc.hyps(2) have n: "n = 6 - length (sel @ [d])" by simp
      from st Some have r1: "r1 = Inr (Some d)"
        and h: "held_pokemon w s1 = held_pokemon w s" "held_species w s1 = held_species w s"
        by simp_all
      have IH: "map_option fst (fill_loop w gens f (sel @ [d]) ?T' s1)
                  = Some (fill_of (held_pokemon w s) (held_species w s) gens f n (sel @ [d]) ?T')"
        using Suc.hyps(1) [OF n, of ?T' s1] h n by simp
      have step: "fill_loop w gens f sel T s = fill_loop w gens f (sel @ [d]) ?T' s1"
        using lt g assms(2) r1 by (subst fill_loop.simps) simp
      have "fill_of (held_pokemon w s) (held_species w s) gens f (Suc n) sel T
              = fill_of (held_pokemon w s) (held_species w s) gens f n (sel @ [d]) ?T'"
        using Inr Some by simp
      with step IH Suc.hyps(2) show ?thesis
        by simp
    qed
  qed
qed

lemma fetch_single_pokemon_steady:
  assumes "steady w"
  shows "held_pokemon w (fetch_single_pokemon w i s) = held_pokemon w s
         \<and> held_species w (fetch_single_pokemon w i s) = held_species w s"
proof -
  from assms have doc: "pokemon_doc w (requests s) = pokemon_doc w 0"
    by (simp add: steady_def)
  then show ?thesis
    by (auto simp: fetch_single_pokemon_def held_pokemon_def held_species_def tick_def
        update_conv' fun_eq_iff split: option.splits)
qed

lemma fetch_single_species_steady:
  assumes "steady w"
  shows "held_pokemon w (fetch_single_species w i s) = held_pokemon w s
         \<and> held_species w (fetch_single_species w i s) = held_species w s"
proof -
  from assms have doc: "species_doc w (requests s) = species_doc w 0"
    by (simp add: steady_def)
  then show ?thesis
    by (auto simp: fetch_single_species_def held_pokemon_def held_species_def tick_def
        update_conv' fun_eq_iff split: option.splits)
qed

lemma prefetched_steady:
  assumes "steady w"
  shows "held_pokemon w (prefetched w ids s) = held_pokemon w s"
    and "held_species w (prefetched w ids s) = held_species w s"
proof -
  have p: "held_pokemon w (fold (fetch_single_pokemon w) xs s0) = held_pokemon w s0
           \<and> held_species w (fold (fetch_single_pokemon w) xs s0) = held_species w s0" for xs s0
    by (induction xs arbitrary: s0) (simp_all add: fetch_single_pokemon_steady [OF assms])
  have q: "held_pokemon w (fold (fetch_single_species w) xs s0) = held_pokemon w s0
           \<and> held_species w (fold (fetch_single_species w) xs s0) = held_species w s0" for xs s0
    by (induction xs arbitrary: s0) (simp_all add: fetch_single_species_steady [OF assms])
  from p q show "held_pokemon w (prefetched w ids s) = held_pokemon w s"
    and "held_species w (prefetched w ids s) = held_species w s"
    by (simp_all add: prefetched_def prefetch_pokemon_data_def prefetch_species_data_def)
qed

text \<open>A manual pick with the legendary filter off, on a steady world.\<close>

lemma manual_pick_steady:
  assumes "steady w" and "\<not> legendary_filter_var f" and "name \<noteq> []"
    and "name_index w 0 = Some names" and "index (map capitalize names) name = Some i"
    and "held_pokemon w s (int i + 1) = Some d"
  shows "\<exists>s'. manual_pick w f name (sel, T, s)
                 = (sel @ [d], if type_filter_var f then T \<union> set (ptypes d) else T, s')
              \<and> held_pokemon w s' = held_pokemon w s \<and> held_species w s' = held_species w s"
proof -
  from assms(1,4) have "name_index w (requests s) = Some names"
    by (simp add: steady_def)
  then have n: "get_all_pokemon w s = (map capitalize names, tick s)"
    by (simp add: get_all_pokemon_def)
  have ht: "held_pokemon w (tick s) = held_pokemon w s" "held_species w (tick s) = held_species w s"
    by (simp_all add: held_pokemon_def held_species_def tick_def fun_eq_iff)
  obtain r2 s2 where g: "get_pokemon_data w (int i + 1) (tick s) = (r2, s2)"
    by (cases "get_pokemon_data w (int i + 1) (tick s)")
  note g1 = get_pokemon_data_steady [OF assms(1) g]
  from g1(1) ht assms(6) have "r2 = Some d"
    by simp
  with assms(2,3,5) n g
  have "manual_pick w f name (sel, T, s)
          = (sel @ [d], if type_filter_var f then T \<union> set (ptypes d) else T, s2)"
    by (simp add: manual_pick_def)
  with g1 ht show ?thesis
    by simp
qed

text \<open>Candidates of an interval that do not pass are skipped.\<close>

lemma first_passing_append:
  "\<forall>i\<in>set xs. passes P S et el i = None \<Longrightarrow>
   first_passing P S et el (xs @ ys) = first_passing P S et el ys"
  by (induction xs) simp_all

lemma first_passing_upto:
  assumes "a \<le> k" and "k \<le> b" and "\<forall>i. a \<le> i \<and> i < k \<longrightarrow> passes P S et el i = None"
  shows "first_passing P S et el [a..b] =
           (case passes P S et el k of
              Some d \<Rightarrow> Some d
            | None \<Rightarrow> first_passing P S et el [k + 1..b])"
proof -
  have "[a..b] = [a..k - 1] @ k # [k + 1..b]"
    using assms(1,2) by (simp add: upto_split3 [of a k b])
  moreover have "\<forall>i\<in>set [a..k - 1]. passes P S et el i = None"
    using assms(3) by simp
  ultimately show ?thesis
    by (simp add: first_passing_append)
qed

lemma first_passing_none:
  assumes "\<forall>i. a \<le> i \<and> i \<le> b \<longrightarrow> passes P S et el i = None"
  shows "first_passing P S et el [a..b] = None"
proof -
  have "\<forall>i\<in>set [a..b]. passes P S et el i = None"
    using assms by simp
  from first_passing_append [OF this, of "[]"] show ?thesis
    by simp
qed

subsection \<open>Runs on the concrete sources\<close>

lemma manual_pick_empty: "manual_pick w f [] acc = acc"
  by (cases acc) (simp add: manual_pick_def)

lemma steady_kanto: "steady kanto"
  by (simp add: steady_def kanto_def offline_def)

lemma steady_kalos: "steady kalos"
  by (simp add: steady_def kalos_def offline_def)

lemma kanto_held:
  "held_pokemon kanto (prefetched kanto ids empty_state) i =
     (if i = 1 then Some bulbasaur else if i = 2 then Some ivysaur
      else if i = 150 then Some mewtwo else None)"
proof -
  have "held_pokemon kanto (prefetched kanto ids empty_state) = held_pokemon kanto empty_state"
    by (rule prefetched_steady(1) [OF steady_kanto])
  then show ?thesis
    by (simp add: held_pokemon_def empty_state_def kanto_def offline_def)
qed

lemma kalos_held:
  "held_pokemon kalos (prefetched kalos ids empty_state) i = (if i = 716 then Some xerneas else None)"
  "held_species kalos (prefetched kalos ids empty_state) i
     = (if i = 716 then Some xerneas_species else None)"
proof -
  have "held_pokemon kalos (prefetched kalos ids empty_state) = held_pokemon kalos empty_state"
    by (rule prefetched_steady(1) [OF steady_kalos])
  then show "held_pokemon kalos (prefetched kalos ids empty_state) i
               = (if i = 716 then Some xerneas else None)"
    by (simp add: held_pokemon_def empty_state_def kalos_def offline_def)
  have "held_species kalos (prefetched kalos ids empty_state) = held_species kalos empty_state"
    by (rule prefetched_steady(2) [OF steady_kalos])
  then show "held_species kalos (prefetched kalos ids empty_state) i
               = (if i = 716 then Some xerneas_species else None)"
    by (simp add: held_species_def empty_state_def kalos_def offline_def)
qed

text \<open>The rounds of the random fill on \<open>kanto\<close>, over the first generation.\<close>

lemma kanto_round_unfiltered:
  assumes "\<forall>i. P i = (if i = 1 then Some bulbasaur else if i = 2 then Some ivysaur
                        else if i = 150 then Some mewtwo else None)"
  shows "first_passing P S None False [1..151] = Some bulbasaur"
  using assms first_passing_upto [of 1 1 151 P S None False]
  by (simp add: passes_def)

lemma kanto_round_fresh:
  assumes "\<forall>i. P i = (if i = 1 then Some bulbasaur else if i = 2 then Some ivysaur
                        else if i = 150 then Some mewtwo else None)"
    and "''grass'' \<notin> T" and "''poison'' \<notin> T"
  shows "first_passing P S (Some T) False [1..151] = Some bulbasaur"
  using assms first_passing_upto [of 1 1 151 P S "Some T" False]
  by (simp add: passes_def bulbasaur_def)

lemma kanto_round_grass_used:
  assumes "\<forall>i. P i = (if i = 1 then Some bulbasaur else if i = 2 then Some ivysaur
                        else if i = 150 then Some mewtwo else None)"
    and "''grass'' \<in> T" and "''psychic'' \<notin> T"
  shows "first_passing P S (Some T) False [1..151] = Some mewtwo"
proof -
  have "\<forall>i. 1 \<le> i \<and> i < 150 \<longrightarrow> passes P S (Some T) False i = None"
    using assms(1,2) by (auto simp: passes_def bulbasaur_def ivysaur_def)
  from first_passing_upto [OF _ _ this, of 151] assms(1,3) show ?thesis
    by (simp add: passes_def mewtwo_def)
qed

lemma kanto_round_all_used:
  assumes "\<forall>i. P i = (if i = 1 then Some bulbasaur else if i = 2 then Some ivysaur
                        else if i = 150 then Some mewtwo else None)"
    and "''grass'' \<in> T" and "''psychic'' \<in> T"
  shows "first_passing P S (Some T) False [1..151] = None"
proof -
  have "\<forall>i. 1 \<le> i \<and> i \<le> 151 \<longrightarrow> passes P S (Some T) False i = None"
    using assms by (auto simp: passes_def bulbasaur_def ivysaur_def mewtwo_def)
  then show ?thesis
    by (rule first_passing_none)
qed

text \<open>
  Claim C1, refuted as stated. With no filter on and no manual pick, on a source that
  serves id 1 and a shuffle that puts id 1 first in every round, each of the six rounds
  of the random fill returns the record of id 1: the roster holds it six times.
\<close>

theorem roster_repeats_an_id:
  "map_option fst (generate_pokemon_team kanto [1] [] no_filters empty_state)
     = Some (Inr [bulbasaur, bulbasaur, bulbasaur, bulbasaur, bulbasaur, bulbasaur])"
proof -
  let ?s0 = "prefetched kanto [1..151] empty_state"
  have nf: "\<not> evolution_filter_var no_filters"
    by (simp add: no_filters_def)
  have "map_option fst (generate_pokemon_team kanto [1] [] no_filters empty_state)
          = map_option fst (fill_loop kanto [1] no_filters [] {} ?s0)"
    by (simp add: generate_pokemon_team_def collect_ids_1 manual_picks_def del: collect_ids.simps)
  also have "\<dots> = Some (fill_of (held_pokemon kanto ?s0) (held_species kanto ?s0) [1] no_filters 6 [] {})"
    using fill_loop_steady [OF steady_kanto nf, of "[1]" "[]" "{}" ?s0] by simp
  also have "fill_of (held_pokemon kanto ?s0) (held_species kanto ?s0) [1] no_filters 6 [] {}
               = Inr [bulbasaur, bulbasaur, bulbasaur, bulbasaur, bulbasaur, bulbasaur]"
    by (simp add: eval_nat_numeral collect_ids_1 no_filters_def kanto_round_unfiltered kanto_held
        del: collect_ids.simps)
  finally show ?thesis .
qed

lemma kanto_names_0:
  "name_index kanto 0 = Some ([''bulbasaur'', ''ivysaur''] @ replicate 147 ''unnamed'' @ [''mewtwo''])"
  by (simp add: kanto_def offline_def)

lemma kanto_held_after:
  assumes "held_pokemon kanto s = held_pokemon kanto (prefetched kanto ids empty_state)"
  shows "\<forall>i. held_pokemon kanto s i =
           (if i = 1 then Some bulbasaur else if i = 2 then Some ivysaur
            else if i = 150 then Some mewtwo else None)"
  using assms by (simp add: kanto_held)

text \<open>
  The run with the type filter on and no manual pick: Bulbasaur, then Mewtwo, then no
  candidate is left.
\<close>

lemma kanto_typed_run:
  "map_option fst (generate_pokemon_team kanto [1] [] type_filter_only empty_state)
     = Some (Inr [bulbasaur, mewtwo])"
proof -
  let ?s0 = "prefetched kanto [1..151] empty_state"
  have nf: "\<not> evolution_filter_var type_filter_only"
    by (simp add: type_filter_only_def)
  note P = kanto_held_after [OF refl, of "[1..151]"]
  have "map_option fst (generate_pokemon_team kanto [1] [] type_filter_only empty_state)
          = map_option fst (fill_loop kanto [1] type_filter_only [] {} ?s0)"
    by (simp add: generate_pokemon_team_def collect_ids_1 manual_picks_def del: collect_ids.simps)
  also have "\<dots> = Some (fill_of (held_pokemon kanto ?s0) (held_species kanto ?s0) [1]
                         type_filter_only 6 [] {})"
    using fill_loop_steady [OF steady_kanto nf, of "[1]" "[]" "{}" ?s0] by simp
  also have "fill_of (held_pokemon kanto ?s0) (held_species kanto ?s0) [1] type_filter_only 6 [] {}
               = Inr [bulbasaur, mewtwo]"
    using P
    by (simp add: eval_nat_numeral collect_ids_1 type_filter_only_def
        kanto_round_fresh kanto_round_grass_used kanto_round_all_used
        bulbasaur_def mewtwo_def del: collect_ids.simps)
  finally show ?thesis .
qed

text \<open>
  Claim C3, refuted as stated. With the type filter on, the manual picks Bulbasaur and
  Ivysaur are both accepted although both are of the types grass and poison; the random
  fill then adds Mewtwo and finds no further candidate.
\<close>

theorem manual_picks_share_types:
  "map_option fst
     (generate_pokemon_team kanto [1] [''Bulbasaur'', ''Ivysaur'', [], [], [], []]
        type_filter_only empty_state)
     = Some (Inr [bulbasaur, ivysaur, mewtwo]) \<and>
   set (ptypes bulbasaur) \<inter> set (ptypes ivysaur) = {''grass'', ''poison''}"
proof -
  let ?f = type_filter_only
  let ?s0 = "prefetched kanto [1..151] empty_state"
  let ?T1 = "set (ptypes bulbasaur)"
  let ?T2 = "set (ptypes bulbasaur) \<union> set (ptypes ivysaur)"
  have lf: "\<not> legendary_filter_var ?f" and nf: "\<not> evolution_filter_var ?f"
    and tf: "type_filter_var ?f"
    by (simp_all add: type_filter_only_def)
  have b: "held_pokemon kanto ?s0 (int 0 + 1) = Some bulbasaur"
    by (simp add: kanto_held)
  from manual_pick_steady [OF steady_kanto lf _ kanto_names_0 kanto_index(1) b, of "[]" "{}"] tf
  obtain s1 where m1: "manual_pick kanto ?f ''Bulbasaur'' ([], {}, ?s0) = ([bulbasaur], ?T1, s1)"
    and h1: "held_pokemon kanto s1 = held_pokemon kanto ?s0"
    by auto
  from h1 have i: "held_pokemon kanto s1 (int 1 + 1) = Some ivysaur"
    by (simp add: kanto_held)
  from manual_pick_steady [OF steady_kanto lf _ kanto_names_0 kanto_index(2) i,
      of "[bulbasaur]" ?T1] tf
  obtain s2 where m2: "manual_pick kanto ?f ''Ivysaur'' ([bulbasaur], ?T1, s1)
                         = ([bulbasaur, ivysaur], ?T2, s2)"
    and h2: "held_pokemon kanto s2 = held_pokemon kanto s1"
    by auto
  have mp: "manual_picks kanto ?f [''Bulbasaur'', ''Ivysaur'', [], [], [], []] ?s0
              = ([bulbasaur, ivysaur], ?T2, s2)"
    by (simp add: manual_picks_def m1 m2 manual_pick_empty)
  from h1 h2 have "held_pokemon kanto s2 = held_pokemon kanto ?s0"
    by simp
  note P = kanto_held_after [OF this]
  have "map_option fst
          (generate_pokemon_team kanto [1] [''Bulbasaur'', ''Ivysaur'', [], [], [], []] ?f empty_state)
          = map_option fst (fill_loop kanto [1] ?f [bulbasaur, ivysaur] ?T2 s2)"
    by (simp add: generate_pokemon_team_def collect_ids_1 mp del: collect_ids.simps)
  also have "\<dots> = Some (fill_of (held_pokemon kanto s2) (held_species kanto s2) [1] ?f 4
                         [bulbasaur, ivysaur] ?T2)"
    using fill_loop_steady [OF steady_kanto nf, of "[1]" "[bulbasaur, ivysaur]" ?T2 s2] by simp
  also have "fill_of (held_pokemon kanto s2) (held_species kanto s2) [1] ?f 4
               [bulbasaur, ivysaur] ?T2 = Inr [bulbasaur, ivysaur, mewtwo]"
    using P
    by (simp add: eval_nat_numeral collect_ids_1 type_filter_only_def
        kanto_round_grass_used kanto_round_all_used
        bulbasaur_def ivysaur_def mewtwo_def del: collect_ids.simps)
  finally have run: "map_option fst
          (generate_pokemon_team kanto [1] [''Bulbasaur'', ''Ivysaur'', [], [], [], []] ?f empty_state)
          = Some (Inr [bulbasaur, ivysaur, mewtwo])" .
  have "set (ptypes bulbasaur) \<inter> set (ptypes ivysaur) = {''grass'', ''poison''}"
    by (simp add: bulbasaur_def ivysaur_def)
  with run show ?thesis
    by simp
qed

theorem random_fill_types_disjoint_witness:
  "map_option fst (generate_pokemon_team kanto [1] [] type_filter_only empty_state)
     = Some (Inr [bulbasaur, mewtwo]) \<and>
   set (ptypes bulbasaur) \<inter> set (ptypes mewtwo) = {}"
proof -
  have tf: "type_filter_var type_filter_only"
    by (simp add: type_filter_only_def)
  have man: "fst (manual_picks kanto type_filter_only [] (prefetched kanto [1..151] empty_state)) = []"
    by (simp add: manual_picks_def)
  from random_fill_types_disjoint [OF kanto_typed_run tf collect_ids_1 man]
  have "\<forall>i j. i < j \<and> j < length [bulbasaur, mewtwo] \<and> length ([]::pokemon list) \<le> j \<longrightarrow>
          set (ptypes ([bulbasaur, mewtwo] ! i)) \<inter> set (ptypes ([bulbasaur, mewtwo] ! j)) = {}"
    by simp
  then have "0 < (1::nat) \<and> 1 < length [bulbasaur, mewtwo] \<and> length ([]::pokemon list) \<le> 1 \<longrightarrow>
          set (ptypes ([bulbasaur, mewtwo] ! 0)) \<inter> set (ptypes ([bulbasaur, mewtwo] ! 1)) = {}"
    by blast
  with kanto_typed_run show ?thesis
    by simp
qed

lemma served_kanto: "served kanto empty_state \<subseteq> {bulbasaur, ivysaur, mewtwo}"
  by (auto simp: served_def kanto_def offline_def empty_state_def split: if_splits)

theorem random_fill_ids_fresh_witness:
  "map_option fst (generate_pokemon_team kanto [1] [''Ivysaur''] type_filter_only empty_state)
     = Some (Inr [ivysaur, mewtwo]) \<and>
   pid ivysaur \<noteq> pid mewtwo"
proof -
  let ?f = type_filter_only
  let ?s0 = "prefetched kanto [1..151] empty_state"
  let ?T1 = "set (ptypes ivysaur)"
  have lf: "\<not> legendary_filter_var ?f" and nf: "\<not> evolution_filter_var ?f"
    and tf: "type_filter_var ?f"
    by (simp_all add: type_filter_only_def)
  have i: "held_pokemon kanto ?s0 (int 1 + 1) = Some ivysaur"
    by (simp add: kanto_held)
  from manual_pick_steady [OF steady_kanto lf _ kanto_names_0 kanto_index(2) i, of "[]" "{}"] tf
  obtain s1 where m1: "manual_pick kanto ?f ''Ivysaur'' ([], {}, ?s0) = ([ivysaur], ?T1, s1)"
    and h1: "held_pokemon kanto s1 = held_pokemon kanto ?s0"
    by auto
  have mp: "manual_picks kanto ?f [''Ivysaur''] ?s0 = ([ivysaur], ?T1, s1)"
    by (simp add: manual_picks_def m1)
  note P = kanto_held_after [OF h1]
  have "map_option fst (generate_pokemon_team kanto [1] [''Ivysaur''] ?f empty_state)
          = map_option fst (fill_loop kanto [1] ?f [ivysaur] ?T1 s1)"
    by (simp add: generate_pokemon_team_def collect_ids_1 mp del: collect_ids.simps)
  also have "\<dots> = Some (fill_of (held_pokemon kanto s1) (held_species kanto s1) [1] ?f 5
                         [ivysaur] ?T1)"
    using fill_loop_steady [OF steady_kanto nf, of "[1]" "[ivysaur]" ?T1 s1] by simp
  also have "fill_of (held_pokemon kanto s1) (held_species kanto s1) [1] ?f 5 [ivysaur] ?T1
               = Inr [ivysaur, mewtwo]"
    using P
    by (simp add: eval_nat_numeral collect_ids_1 type_filter_only_def
        kanto_round_grass_used kanto_round_all_used
        ivysaur_def mewtwo_def del: collect_ids.simps)
  finally have run: "map_option fst (generate_pokemon_team kanto [1] [''Ivysaur''] ?f empty_state)
          = Some (Inr [ivysaur, mewtwo])" .
  have "\<forall>r\<in>{bulbasaur, ivysaur, mewtwo}. ptypes r \<noteq> []"
    by (simp add: bulbasaur_def ivysaur_def mewtwo_def)
  with served_kanto have nonempty: "\<forall>r\<in>served kanto empty_state. ptypes r \<noteq> []"
    by blast
  have "\<forall>r\<in>{bulbasaur, ivysaur, mewtwo}. \<forall>r'\<in>{bulbasaur, ivysaur, mewtwo}.
          pid r = pid r' \<longrightarrow> ptypes r = ptypes r'"
    by (simp add: bulbasaur_def ivysaur_def mewtwo_def)
  with served_kanto
  have same: "\<forall>r\<in>served kanto empty_state. \<forall>r'\<in>served kanto empty_state.
                pid r = pid r' \<longrightarrow> ptypes r = ptypes r'"
    by blast
  have man: "fst (manual_picks kanto ?f [''Ivysaur''] ?s0) = [ivysaur]"
    by (simp add: mp)
  from random_fill_ids_fresh [OF run tf nonempty same collect_ids_1 man]
  have "\<forall>i j. i < j \<and> j < length [ivysaur, mewtwo] \<and> length [ivysaur] \<le> j \<longrightarrow>
          pid ([ivysaur, mewtwo] ! i) \<noteq> pid ([ivysaur, mewtwo] ! j)"
    by simp
  then have "0 < (1::nat) \<and> 1 < length [ivysaur, mewtwo] \<and> length [ivysaur] \<le> 1 \<longrightarrow>
          pid ([ivysaur, mewtwo] ! 0) \<noteq> pid ([ivysaur, mewtwo] ! 1)"
    by blast
  with run show ?thesis
    by simp
qed

lemma collect_ids_6: "collect_ids [6] [] = Inr [650..721]"
  by (simp add: gen_ranges_def del: upto_rec_numeral)

theorem fill_terminates_partial_witness:
  "fst (check_candidate kalos 716 None False True empty_state) = Inr None \<and>
   fst (try_candidates kalos [716] None False True empty_state) = Inr None \<and>
   fst (get_random_pokemon kalos [6] None False True (prefetched kalos [650..721] empty_state))
     = Inr None \<and>
   map_option fst
     (fill_loop kalos [6] legendary_filter_only [] {} (prefetched kalos [650..721] empty_state))
     = Some (Inr []) \<and>
   map_option fst (generate_pokemon_team kalos [6] [] legendary_filter_only empty_state)
     = Some (Inr [])"
proof -
  let ?f = legendary_filter_only
  let ?s0 = "prefetched kalos [650..721] empty_state"
  have single: "fst (check_candidate kalos 716 None False True empty_state) = Inr None"
    by (simp add: check_candidate_def get_pokemon_data_def is_legendary_def
        get_pokemon_species_data_def kalos_def offline_def empty_state_def tick_def
        xerneas_species_def)
  have "\<forall>i. 650 \<le> i \<and> i \<le> 721 \<longrightarrow>
          passes (held_pokemon kalos ?s0) (held_species kalos ?s0) None True i = None"
    by (simp add: passes_def kalos_held notable_def xerneas_species_def del: upto_rec_numeral)
  then have none: "first_passing (held_pokemon kalos ?s0) (held_species kalos ?s0) None True [650..721]
                     = None"
    by (rule first_passing_none)
  have round: "fst (get_random_pokemon kalos [6] None False True ?s0) = Inr None"
    using get_random_pokemon_steady [OF steady_kalos collect_ids_6 surjective_pairing,
        of None True ?s0] none
    by (simp del: upto_rec_numeral)
  have f: "(if type_filter_var ?f then Some {} else None) = None"
    "evolution_filter_var ?f = False" "legendary_filter_var ?f = True"
    by (simp_all add: legendary_filter_only_def)
  note inst = fill_terminates_partial [of kalos "[6]" ?f "[]" "{}" empty_state "[]" 716 None False
      True "[650..721]"]
  from inst have "fst (check_candidate kalos 716 None False True empty_state) = Inr None \<longrightarrow>
                 fst (try_candidates kalos [716] None False True empty_state) = Inr None"
    by (elim conjE)
  with single have one: "fst (try_candidates kalos [716] None False True empty_state) = Inr None"
    by (rule rev_mp)
  from inst have "collect_ids [6] [] = Inr [650..721] \<and>
      fst (get_random_pokemon kalos [6] (if type_filter_var ?f then Some {} else None)
             (evolution_filter_var ?f) (legendary_filter_var ?f) ?s0) = Inr None \<longrightarrow>
      map_option fst (generate_pokemon_team kalos [6] [] ?f empty_state) = Some (Inr [])"
    by (elim conjE)
  then have "collect_ids [6] [] = Inr [650..721] \<and>
      fst (get_random_pokemon kalos [6] None False True ?s0) = Inr None \<longrightarrow>
      map_option fst (generate_pokemon_team kalos [6] [] ?f empty_state) = Some (Inr [])"
    by (simp only: f)
  with collect_ids_6 round
  have "map_option fst (generate_pokemon_team kalos [6] [] ?f empty_state) = Some (Inr [])"
    by blast
  moreover
  from fill_terminates_partial [of kalos "[6]" ?f "[]" "{}" ?s0 "[]" 716 None False True
      "[650..721]"]
  have "length ([]::pokemon list) < 6 \<and>
      fst (get_random_pokemon kalos [6] (if type_filter_var ?f then Some {} else None)
             (evolution_filter_var ?f) (legendary_filter_var ?f) ?s0) = Inr None \<longrightarrow>
      fill_loop kalos [6] ?f [] {} ?s0 =
        Some (Inr [], warn NoMoreFound
          (snd (get_random_pokemon kalos [6] (if type_filter_var ?f then Some {} else None)
             (evolution_filter_var ?f) (legendary_filter_var ?f) ?s0)))"
    by (elim conjE)
  then have "fst (get_random_pokemon kalos [6] None False True ?s0) = Inr None \<longrightarrow>
      fill_loop kalos [6] ?f [] {} ?s0 =
        Some (Inr [], warn NoMoreFound (snd (get_random_pokemon kalos [6] None False True ?s0)))"
    by (simp only: f list.size simp_thms zero_less_numeral)
  with round have "fill_loop kalos [6] ?f [] {} ?s0 =
        Some (Inr [], warn NoMoreFound (snd (get_random_pokemon kalos [6] None False True ?s0)))"
    by (rule rev_mp)
  then have "map_option fst (fill_loop kalos [6] ?f [] {} ?s0) = Some (Inr [])"
    by simp
  ultimately show ?thesis
    using single one round by (intro conjI)
qed

end
